theory Spec2Isabelle
  imports Complex_Main "HOL-Library.Finite_Map"
begin

section \<open>Python values used by nrsc5_gui_qt.py\<close>

text \<open>
  A Python \<open>str\<close> is modelled as a \<open>string\<close>: the list of the bytes of its UTF-8
  encoding. White space, digits and letter case are the ASCII ones; text outside ASCII
  passes through every operation unchanged. This is the code on ASCII text only:
  Python's \<open>str.strip\<close>, \<open>\s\<close>, \<open>float\<close> and \<open>int\<close> also take the white space of
  Unicode (such as U+00A0), and \<open>float\<close> and \<open>int\<close> also read the decimal digits of
  other scripts; here those are ordinary characters, so a field holding them is read as
  not a number.
\<close>

definition is_space :: "char \<Rightarrow> bool" where
  "is_space c = (c \<in> set [CHR 0x09, CHR 0x0A, CHR 0x0B, CHR 0x0C, CHR 0x0D,
                           CHR 0x1C, CHR 0x1D, CHR 0x1E, CHR 0x1F, CHR 0x20])"

definition is_digit :: "char \<Rightarrow> bool" where
  "is_digit c = (c \<in> set ''0123456789'')"

definition digit_val :: "char \<Rightarrow> nat" where
  "digit_val c = of_char c - 48"

definition lower_char :: "char \<Rightarrow> char" where
  "lower_char c =
     (case map_of (zip ''ABCDEFGHIJKLMNOPQRSTUVWXYZ'' ''abcdefghijklmnopqrstuvwxyz'') c of
        Some l \<Rightarrow> l
      | None \<Rightarrow> c)"

definition lower :: "string \<Rightarrow> string" where
  "lower s = map lower_char s"

text \<open>\<open>str.strip()\<close>: white space removed at both ends.\<close>

definition strip :: "string \<Rightarrow> string" where
  "strip s = rev (dropWhile is_space (rev (dropWhile is_space s)))"

text \<open>\<open>needle in hay\<close> on strings.\<close>

fun contains :: "string \<Rightarrow> string \<Rightarrow> bool" where
  "contains needle [] = (needle = [])"
| "contains needle (c # cs) =
     (take (length needle) (c # cs) = needle \<or> contains needle cs)"

text \<open>The em dash the labels are reset to (U+2014 in UTF-8).\<close>

definition em_dash :: string where
  "em_dash = [CHR 0xE2, CHR 0x80, CHR 0x94]"

subsection \<open>Floats\<close>

text \<open>
  A Python \<open>float\<close> is an IEEE-754 double. A finite double is modelled by the real
  number it stands for; the two infinities and NaN are values of their own. Rounding
  inside the finite range is left out (it is monotone and fixes 0, so no comparison
  with 0 depends on it); what rounding does at the two ends of the range is kept:
  \<open>fl\<close> sends a real of magnitude at most \<open>2^-1075\<close> to zero and one of magnitude at
  least \<open>2^1024 - 2^970\<close> to an infinity.
\<close>

datatype pyfloat = Fin real | PInf | NInf | NaN

definition fl :: "real \<Rightarrow> pyfloat" where
  "fl r = (if \<bar>r\<bar> \<le> 1 / 2 ^ 1075 then Fin 0
           else if 2 ^ 1024 - 2 ^ 970 \<le> r then PInf
           else if r \<le> - (2 ^ 1024 - 2 ^ 970) then NInf
           else Fin r)"

text \<open>\<open>x * 100.0\<close>.\<close>

fun times100 :: "pyfloat \<Rightarrow> pyfloat" where
  "times100 (Fin r) = fl (r * 100)"
| "times100 PInf = PInf"
| "times100 NInf = NInf"
| "times100 NaN = NaN"

text \<open>\<open>x <= 0\<close> and \<open>x >= 0\<close> (every comparison with NaN is false).\<close>

fun le_zero :: "pyfloat \<Rightarrow> bool" where
  "le_zero (Fin r) = (r \<le> 0)"
| "le_zero PInf = False"
| "le_zero NInf = True"
| "le_zero NaN = False"

fun ge_zero :: "pyfloat \<Rightarrow> bool" where
  "ge_zero (Fin r) = (0 \<le> r)"
| "ge_zero PInf = True"
| "ge_zero NInf = False"
| "ge_zero NaN = False"

fun fneg :: "pyfloat \<Rightarrow> pyfloat" where
  "fneg (Fin r) = Fin (- r)"
| "fneg PInf = NInf"
| "fneg NInf = PInf"
| "fneg NaN = NaN"

text \<open>
  A run of decimal digits in which single underscores may separate digits
  (\<open>1_000\<close>), as \<open>float()\<close> and \<open>int()\<close> accept it: \<open>digitpart s\<close> is the digits read and
  the rest of the text, or \<open>None\<close> when \<open>s\<close> does not start with a digit.
\<close>

fun digits_more :: "nat list \<Rightarrow> string \<Rightarrow> nat list \<times> string" where
  "digits_more acc [] = (acc, [])"
| "digits_more acc [c] = (if is_digit c then (acc @ [digit_val c], []) else (acc, [c]))"
| "digits_more acc (c # d # cs) =
     (if is_digit c then digits_more (acc @ [digit_val c]) (d # cs)
      else if c = CHR ''_'' \<and> is_digit d then digits_more (acc @ [digit_val d]) cs
      else (acc, c # d # cs))"

definition digitpart :: "string \<Rightarrow> (nat list \<times> string) option" where
  "digitpart s = (case s of
       [] \<Rightarrow> None
     | c # cs \<Rightarrow> if is_digit c then Some (digits_more [digit_val c] cs) else None)"

definition nat_of_digits :: "nat list \<Rightarrow> nat" where
  "nat_of_digits ds = foldl (\<lambda>n d. 10 * n + d) 0 ds"

definition pow10 :: "int \<Rightarrow> real" where
  "pow10 e = (if 0 \<le> e then 10 ^ nat e else 1 / 10 ^ nat (- e))"

text \<open>An optional sign: the factor and the rest.\<close>

definition opt_sign :: "string \<Rightarrow> bool \<times> string" where
  "opt_sign s = (case s of
       c # cs \<Rightarrow> if c = CHR ''-'' then (True, cs)
                 else if c = CHR ''+'' then (False, cs) else (False, s)
     | [] \<Rightarrow> (False, s))"

text \<open>The exponent part \<open>[eE][+-]?digits\<close>, which must reach the end of the text.\<close>

definition exponent :: "string \<Rightarrow> int option" where
  "exponent s = (case s of
       [] \<Rightarrow> Some 0
     | c # cs \<Rightarrow>
         if c = CHR ''e'' \<or> c = CHR ''E'' then
           (case opt_sign cs of (neg, ds) \<Rightarrow>
              (case digitpart ds of
                 Some (e, []) \<Rightarrow>
                   Some (if neg then - int (nat_of_digits e) else int (nat_of_digits e))
               | _ \<Rightarrow> None))
         else None)"

text \<open>
  The unsigned decimal literal: \<open>digits [. [digits]] [exp]\<close> or \<open>. digits [exp]\<close>;
  the result is the exact value.
\<close>

definition decimal :: "string \<Rightarrow> real option" where
  "decimal s =
     (case digitpart s of
        Some (ip, r1) \<Rightarrow>
          (case r1 of
             c # r2 \<Rightarrow>
               if c = CHR ''.'' then
                 (case digitpart r2 of
                    Some (fp, r3) \<Rightarrow>
                      map_option (\<lambda>e. real (nat_of_digits (ip @ fp)) * pow10 (e - int (length fp)))
                        (exponent r3)
                  | None \<Rightarrow> map_option (\<lambda>e. real (nat_of_digits ip) * pow10 e) (exponent r2))
               else map_option (\<lambda>e. real (nat_of_digits ip) * pow10 e) (exponent r1)
           | [] \<Rightarrow> Some (real (nat_of_digits ip)))
      | None \<Rightarrow>
          (case s of
             c # r2 \<Rightarrow>
               if c = CHR ''.'' then
                 (case digitpart r2 of
                    Some (fp, r3) \<Rightarrow>
                      map_option (\<lambda>e. real (nat_of_digits fp) * pow10 (e - int (length fp)))
                        (exponent r3)
                  | None \<Rightarrow> None)
               else None
           | [] \<Rightarrow> None))"

text \<open>
  \<open>float(s)\<close>: \<open>None\<close> is the \<open>ValueError\<close>. White space around the literal is
  dropped; \<open>inf\<close>, \<open>infinity\<close> and \<open>nan\<close> are read in any letter case. Digits and
  white space are the ASCII ones.
\<close>

definition py_float :: "string \<Rightarrow> pyfloat option" where
  "py_float s =
     (case opt_sign (strip s) of (neg, body) \<Rightarrow>
        (let sg = (\<lambda>v. if neg then fneg v else v) in
         if lower body = ''inf'' \<or> lower body = ''infinity'' then Some (sg PInf)
         else if lower body = ''nan'' then Some NaN
         else map_option (\<lambda>r. sg (fl r)) (decimal body)))"

text \<open>
  \<open>int(s)\<close>: \<open>None\<close> is the \<open>ValueError\<close>. White space around the literal is dropped,
  a sign may come first, underscores may separate digits. Digits and white space are
  the ASCII ones.
\<close>

definition py_int :: "string \<Rightarrow> int option" where
  "py_int s =
     (case opt_sign (strip s) of (neg, body) \<Rightarrow>
        (case digitpart body of
           Some (ds, []) \<Rightarrow> Some (if neg then - int (nat_of_digits ds) else int (nat_of_digits ds))
         | _ \<Rightarrow> None))"

text \<open>\<open>str(n)\<close> for an integer.\<close>

fun str_nat :: "nat \<Rightarrow> string" where
  "str_nat n = (if n < 10 then [''0123456789'' ! n]
                else str_nat (n div 10) @ [''0123456789'' ! (n mod 10)])"

definition str_int :: "int \<Rightarrow> string" where
  "str_int i = (if i < 0 then CHR ''-'' # str_nat (nat (- i)) else str_nat (nat i))"

section \<open>The regular expressions of the metadata scanner\<close>

text \<open>
  \<open>pattern.search(line)\<close> tries the pattern at every position of the line from the
  left and returns the groups of the first position where it matches.
\<close>

fun search :: "(string \<Rightarrow> 'a option) \<Rightarrow> string \<Rightarrow> 'a option" where
  "search m [] = m []"
| "search m (c # cs) = (case m (c # cs) of Some g \<Rightarrow> Some g | None \<Rightarrow> search m cs)"

text \<open>
  A literal prefix, compared as it is or without regard to letter case
  (\<open>re.IGNORECASE\<close>): the text after the prefix.
\<close>

definition after_lit :: "string \<Rightarrow> string \<Rightarrow> string option" where
  "after_lit lit t = (if take (length lit) t = lit then Some (drop (length lit) t) else None)"

definition after_lit_ci :: "string \<Rightarrow> string \<Rightarrow> string option" where
  "after_lit_ci lit t =
     (if lower (take (length lit) t) = lower lit then Some (drop (length lit) t) else None)"

text \<open>
  \<open>\s*(.+)\<close>: the greedy \<open>\s*\<close> takes all the white space it finds and gives
  characters back, last first, until \<open>.+\<close> (one or more characters other than a line
  feed) matches; the result is group 1.
\<close>

fun ws_then_any :: "string \<Rightarrow> string option" where
  "ws_then_any [] = None"
| "ws_then_any (c # cs) =
     (let here = (if c \<noteq> CHR 0x0A then Some (takeWhile (\<lambda>x. x \<noteq> CHR 0x0A) (c # cs)) else None)
      in if is_space c then (case ws_then_any cs of Some g \<Rightarrow> Some g | None \<Rightarrow> here)
         else here)"

text \<open>\<open>re_title\<close>, \<open>re_artist\<close>, \<open>re_album\<close>: \<open>Title:\s*(.+)\<close> and its like, ignoring case.\<close>

definition re_label :: "string \<Rightarrow> string \<Rightarrow> string option" where
  "re_label lit line =
     search (\<lambda>t. case after_lit_ci lit t of Some r \<Rightarrow> ws_then_any r | None \<Rightarrow> None) line"

definition re_title :: "string \<Rightarrow> string option" where
  "re_title = re_label ''Title:''"

definition re_artist :: "string \<Rightarrow> string option" where
  "re_artist = re_label ''Artist:''"

definition re_album :: "string \<Rightarrow> string option" where
  "re_album = re_label ''Album:''"

text \<open>
  \<open>re_ber\<close> is \<open>BER:\s*([0-9]*\.?[0-9eE+-]+)\<close>, case sensitive. The group cannot
  start with white space, so \<open>\s*\<close> keeps all of it. Then \<open>[0-9]*\<close> takes the digits
  \<open>a\<close>; if a point and a non-empty run of \<open>[0-9eE+-]\<close> follow, the group is all three;
  otherwise the point is not taken and the group is \<open>a\<close> with the run of \<open>[0-9eE+-]\<close>
  after it, or \<open>a\<close> alone when that run is empty (\<open>[0-9]*\<close> gives its last digit to
  the final \<open>+\<close>), and nothing when \<open>a\<close> is empty too.
\<close>

definition ber_class :: "char \<Rightarrow> bool" where
  "ber_class c = (is_digit c \<or> c \<in> set ''eE+-'')"

definition ber_number :: "string \<Rightarrow> string option" where
  "ber_number t =
     (let t' = dropWhile is_space t;
          a = takeWhile is_digit t';
          r = dropWhile is_digit t'
      in if r \<noteq> [] \<and> hd r = CHR ''.'' \<and> takeWhile ber_class (tl r) \<noteq> []
         then Some (a @ ''.'' @ takeWhile ber_class (tl r))
         else if takeWhile ber_class r \<noteq> [] then Some (a @ takeWhile ber_class r)
         else if a \<noteq> [] then Some a
         else None)"

definition re_ber :: "string \<Rightarrow> string option" where
  "re_ber line =
     search (\<lambda>t. case after_lit ''BER:'' t of Some r \<Rightarrow> ber_number r | None \<Rightarrow> None) line"

text \<open>
  \<open>re_station_loc\<close> is
  \<open>Station location:\s*([0-9.+-]+),\s*([0-9.+-]+),\s*([0-9.+-]+)m\<close>, ignoring case.
  Each group is followed by a character outside its class, so each is the whole run.
\<close>

definition loc_class :: "char \<Rightarrow> bool" where
  "loc_class c = (is_digit c \<or> c \<in> set ''.+-'')"

text \<open>\<open>\s*([0-9.+-]+)\<close> and then the literal \<open>stop\<close>: the group and the rest.\<close>

definition loc_group :: "string \<Rightarrow> string \<Rightarrow> (string \<times> string) option" where
  "loc_group stop t =
     (let t' = dropWhile is_space t;
          g = takeWhile loc_class t'
      in if g = [] then None
         else map_option (\<lambda>r. (g, r)) (after_lit_ci stop (dropWhile loc_class t')))"

definition station_groups :: "string \<Rightarrow> (string \<times> string \<times> string) option" where
  "station_groups t =
     (case after_lit_ci ''Station location:'' t of
        None \<Rightarrow> None
      | Some r0 \<Rightarrow>
          (case loc_group '','' r0 of
             None \<Rightarrow> None
           | Some (g1, r1) \<Rightarrow>
               (case loc_group '','' r1 of
                  None \<Rightarrow> None
                | Some (g2, r2) \<Rightarrow>
                    (case loc_group ''m'' r2 of
                       None \<Rightarrow> None
                     | Some (g3, r3) \<Rightarrow> Some (g1, g2, g3)))))"

definition re_station_loc :: "string \<Rightarrow> (string \<times> string \<times> string) option" where
  "re_station_loc line = search station_groups line"

section \<open>Processes and the window\<close>

text \<open>
  \<open>QProcess\<close>: the state of a process, the error kinds of \<open>errorOccurred\<close> and the
  exit status of \<open>finished\<close>.
\<close>

datatype pstate = NotRunning | Starting | Running

datatype perror = FailedToStart | Crashed | Timedout | ReadError | WriteError | UnknownError

datatype exit_status = NormalExit | CrashExit

text \<open>
  What the program cannot decide is a parameter of the model: the \<open>world\<close> gives, for
  every process by its number, what a blocking wait on it sees. \<open>on_start\<close> answers
  \<open>waitForStarted\<close>; \<open>on_close\<close> answers the \<open>waitForFinished\<close> that follows
  \<open>closeWriteChannel\<close>; \<open>on_terminate\<close> answers the one that follows \<open>terminate\<close>.
\<close>

datatype start_reply = Started | StartFails | StartPending

datatype finish_reply = Exits int exit_status | StaysAlive

record fate =
  on_start :: start_reply
  on_close :: finish_reply
  on_terminate :: finish_reply

type_synonym world = "nat \<Rightarrow> fate"

text \<open>
  The calls into Qt that change nothing the program reads back are recorded, in order,
  in the trace \<open>qt\<close> of the window.
\<close>

datatype widget = RadioBtn | RecordBtn | RecordTimeLabel | FreqEdit | HostEdit | ProgCombo
  | PortEdit | RecordDirEdit | BrowseDirBtn | DisplayTitleLabel | DisplayArtistLabel

datatype box = Warning | Critical

datatype qcall =
    ProcStart nat string "string list"
  | ProcWrite nat string
  | ProcCloseWrite nat
  | ProcTerminate nat
  | ProcKill nat
  | MessageBox box string string
  | SetText widget string
  | SetStyleSheet widget string
  | SetEnabled widget bool
  | SetFocus widget
  | TimerStart
  | TimerStop

record qprocess =
  program :: string
  pstate :: pstate

text \<open>
  The attributes of \<open>NRSC5Gui\<close> the orchestration reads and writes, the contents of the
  widgets it reads back, the processes created so far (\<open>procs\<close>; a handle such as
  \<open>proc_rec\<close> is an index into it) and the trace \<open>qt\<close>. The summary line and the plot
  (formatted floats) and the position calculator are presentation and are left out.
\<close>

record gui =
  radio_running :: bool
  recording :: bool
  stopping_radio :: bool
  station_lat :: "pyfloat option"
  station_lon :: "pyfloat option"
  station_alt :: "pyfloat option"
  ber_history :: "pyfloat list"
  status_text :: string
  record_start_time :: "int option"
  record_duration_text :: string
  last_title :: "string option"
  last_artist :: "string option"
  last_album :: "string option"
  freq_edit :: string
  host_edit :: string
  port_edit :: string
  prog_combo :: nat
  radio_btn_enabled :: bool
  proc_nrsc5 :: "nat option"
  proc_play :: "nat option"
  proc_rec :: "nat option"
  current_record_file :: "string option"
  title_label :: string
  artist_label :: string
  album_label :: string
  log_text :: "string list"
  history_table :: "(string \<times> string \<times> string \<times> string) list"
  procs :: "qprocess list"
  qt :: "qcall list"

definition call :: "qcall \<Rightarrow> gui \<Rightarrow> gui" where
  "call c s = s\<lparr>qt := qt s @ [c]\<rparr>"

text \<open>\<open>proc.state()\<close>, for the process a handle stands for.\<close>

definition pst :: "qprocess list \<Rightarrow> nat \<Rightarrow> pstate" where
  "pst ps i = (if i < length ps then pstate (ps ! i) else NotRunning)"

abbreviation pstate_of :: "gui \<Rightarrow> nat \<Rightarrow> pstate" where
  "pstate_of s i \<equiv> pst (procs s) i"

definition set_pst :: "nat \<Rightarrow> pstate \<Rightarrow> qprocess list \<Rightarrow> qprocess list" where
  "set_pst i st ps = ps[i := (ps ! i)\<lparr>pstate := st\<rparr>]"

definition set_pstate :: "nat \<Rightarrow> pstate \<Rightarrow> gui \<Rightarrow> gui" where
  "set_pstate i st s = s\<lparr>procs := set_pst i st (procs s)\<rparr>"

text \<open>\<open>QProcess(self)\<close> and \<open>start(program, args)\<close>: a new process, starting.\<close>

definition spawn :: "string \<Rightarrow> string list \<Rightarrow> gui \<Rightarrow> gui" where
  "spawn prog args s =
     call (ProcStart (length (procs s)) prog args)
       (s\<lparr>procs := procs s @ [\<lparr>program = prog, pstate = Starting\<rparr>]\<rparr>)"

subsection \<open>Log handling\<close>

definition max_log_lines :: nat where
  "max_log_lines = 10000"

definition append_log_line :: "string \<Rightarrow> gui \<Rightarrow> gui" where
  "append_log_line line s =
     (let l = log_text s @ [line] in s\<lparr>log_text := drop (length l - max_log_lines) l\<rparr>)"

subsection \<open>Process diagnostics\<close>

fun err_map :: "perror \<Rightarrow> string" where
  "err_map FailedToStart = ''Failed to start''"
| "err_map Crashed = ''Crashed''"
| "err_map Timedout = ''Timed out''"
| "err_map WriteError = ''Write error''"
| "err_map ReadError = ''Read error''"
| "err_map UnknownError = ''Unknown error''"

text \<open>\<open>int(error)\<close>, the number of the error kind in Qt's enumeration.\<close>

fun err_int :: "perror \<Rightarrow> int" where
  "err_int FailedToStart = 0"
| "err_int Crashed = 1"
| "err_int Timedout = 2"
| "err_int ReadError = 3"
| "err_int WriteError = 4"
| "err_int UnknownError = 5"

definition on_process_error :: "string \<Rightarrow> perror \<Rightarrow> gui \<Rightarrow> gui" where
  "on_process_error name error s =
     (let msg = err_map error in
      if stopping_radio s \<and> error = Crashed
      then append_log_line (name @ '' terminated (user stop).'') s
      else
        (let s1 = append_log_line
                    (name @ '' error: '' @ msg @ '' ('' @ str_int (err_int error) @ '')'') s
         in if name = ''nrsc5''
            then call (MessageBox Warning ''nrsc5 Error'' (''nrsc5 error: '' @ msg))
                   (s1\<lparr>status_text := ''Status: nrsc5 error: '' @ msg\<rparr>)
            else s1))"

definition on_process_finished :: "string \<Rightarrow> int \<Rightarrow> exit_status \<Rightarrow> gui \<Rightarrow> gui" where
  "on_process_finished name exitCode exitStatus s =
     (if stopping_radio s \<and> exitStatus = CrashExit
      then append_log_line (name @ '' terminated (user stop).'') s
      else append_log_line
             (name @ '' finished with code '' @ str_int exitCode @ '', status: '' @
              (if exitStatus = NormalExit then ''normal'' else ''crashed'')) s)"

subsection \<open>Blocking waits\<close>

text \<open>
  \<open>waitForStarted\<close> and \<open>waitForFinished\<close> block the single thread and deliver the
  signals of the process waited for, and of no other, to the slots connected to it
  before they return: \<open>errorOccurred(FailedToStart)\<close> when the program cannot be
  launched; \<open>errorOccurred(Crashed)\<close> and then \<open>finished\<close> for a process that ends
  abnormally, \<open>finished\<close> alone for one that ends normally. The slots are passed as
  \<open>err\<close> and \<open>fin\<close>. The result is the value the wait returns and the window after it.
\<close>

definition wait_for_started ::
  "(perror \<Rightarrow> gui \<Rightarrow> gui) \<Rightarrow> start_reply \<Rightarrow> nat \<Rightarrow> gui \<Rightarrow> bool \<times> gui" where
  "wait_for_started err r i s =
     (case r of
        Started \<Rightarrow> (True, set_pstate i Running s)
      | StartFails \<Rightarrow> (False, err FailedToStart (set_pstate i NotRunning s))
      | StartPending \<Rightarrow> (False, s))"

definition wait_for_finished ::
  "(perror \<Rightarrow> gui \<Rightarrow> gui) \<Rightarrow> (int \<Rightarrow> exit_status \<Rightarrow> gui \<Rightarrow> gui) \<Rightarrow>
   finish_reply \<Rightarrow> nat \<Rightarrow> gui \<Rightarrow> bool \<times> gui" where
  "wait_for_finished err fin r i s =
     (if pstate_of s i = NotRunning then (False, s)
      else case r of
        StaysAlive \<Rightarrow> (False, s)
      | Exits c st \<Rightarrow>
          (True,
           fin c st (if st = CrashExit then err Crashed (set_pstate i NotRunning s)
                     else set_pstate i NotRunning s)))"

text \<open>\<open>_kill_process(proc)\<close>, with the slots connected to \<open>proc\<close>.\<close>

definition kill_process ::
  "world \<Rightarrow> (perror \<Rightarrow> gui \<Rightarrow> gui) \<Rightarrow> (int \<Rightarrow> exit_status \<Rightarrow> gui \<Rightarrow> gui) \<Rightarrow>
   nat option \<Rightarrow> gui \<Rightarrow> gui" where
  "kill_process w err fin proc s =
     (case proc of
        None \<Rightarrow> s
      | Some i \<Rightarrow>
          if pstate_of s i \<noteq> NotRunning then
            (case wait_for_finished err fin (on_terminate (w i)) i (call (ProcTerminate i) s) of
               (finished, s1) \<Rightarrow> if \<not> finished then call (ProcKill i) s1 else s1)
          else s)"

subsection \<open>Recording controls\<close>

definition stop_recording :: "world \<Rightarrow> gui \<Rightarrow> gui" where
  "stop_recording w s =
     (if \<not> recording s then s
      else
        (let s1 = (case proc_rec s of
                     None \<Rightarrow> s
                   | Some i \<Rightarrow>
                       if pstate_of s i = Running then
                         (case wait_for_finished (on_process_error ''ffmpeg'')
                                 (on_process_finished ''ffmpeg'') (on_close (w i)) i
                                 (call (ProcCloseWrite i) s) of
                            (finished, s') \<Rightarrow>
                              if pstate_of s' i = Running then call (ProcTerminate i) s' else s')
                       else s);
             s2 = call TimerStop
                    (call (SetStyleSheet RecordBtn [])
                      (call (SetText RecordBtn ''Start Recording'') (s1\<lparr>recording := False\<rparr>)));
             s3 = s2\<lparr>record_start_time := None, record_duration_text := []\<rparr>;
             s4 = s3\<lparr>status_text :=
                        (if radio_running s3 then ''Status: Listening'' else ''Status: Idle'')\<rparr>
         in s4\<lparr>proc_rec := None\<rparr>))"

subsection \<open>Metadata and BER parsing\<close>

definition ber_max_points :: nat where
  "ber_max_points = 300"

text \<open>The slice \<open>xs[-n:]\<close> (for \<open>n = 0\<close> it is \<open>xs[0:]\<close>, the whole list).\<close>

definition last_n :: "nat \<Rightarrow> 'a list \<Rightarrow> 'a list" where
  "last_n n xs = (if n = 0 then xs else drop (length xs - n) xs)"

text \<open>\<open>_update_ber_graph\<close>: the series; the redrawing of the plot is left out.\<close>

definition update_ber_graph :: "pyfloat \<Rightarrow> gui \<Rightarrow> gui" where
  "update_ber_graph ber_value s =
     (let h = ber_history s @ [ber_value]
      in s\<lparr>ber_history := (if length h > ber_max_points then last_n ber_max_points h else h)\<rparr>)"

definition max_history_rows :: nat where
  "max_history_rows = 500"

text \<open>\<open>_maybe_add_history_entry\<close>; \<open>now_str\<close> is the time of day the clock shows.\<close>

definition maybe_add_history_entry :: "string \<Rightarrow> gui \<Rightarrow> gui" where
  "maybe_add_history_entry now_str s =
     (let title = strip (title_label s);
          artist = strip (artist_label s);
          album = strip (album_label s)
      in if title \<in> set [[], em_dash] \<and> artist \<in> set [[], em_dash] \<and> album \<in> set [[], em_dash]
         then s
         else if (Some title, Some artist, Some album) = (last_title s, last_artist s, last_album s)
         then s
         else
           (let rows = history_table s @ [(now_str, title, artist, album)]
            in s\<lparr>history_table := drop (length rows - max_history_rows) rows,
                 last_title := Some title, last_artist := Some artist,
                 last_album := Some album\<rparr>))"

text \<open>
  The body of the loop of \<open>_parse_metadata_output\<close>, in the order of the source: the
  BER sample (a \<open>ValueError\<close> of \<open>float\<close> is swallowed), the three labels, the station
  location (all three numbers are read before any attribute is assigned, and a
  \<open>ValueError\<close> is swallowed).
\<close>

definition scan_ber :: "string \<Rightarrow> gui \<Rightarrow> gui" where
  "scan_ber line s =
     (case re_ber line of
        None \<Rightarrow> s
      | Some ber_str \<Rightarrow>
          (case py_float ber_str of
             None \<Rightarrow> s
           | Some ber_val \<Rightarrow> update_ber_graph (times100 ber_val) s))"

definition scan_title :: "string \<Rightarrow> gui \<Rightarrow> gui" where
  "scan_title line s =
     (case re_title line of
        None \<Rightarrow> s
      | Some g \<Rightarrow> call (SetText DisplayTitleLabel (strip g)) (s\<lparr>title_label := strip g\<rparr>))"

definition scan_artist :: "string \<Rightarrow> gui \<Rightarrow> gui" where
  "scan_artist line s =
     (case re_artist line of
        None \<Rightarrow> s
      | Some g \<Rightarrow>
          (let artist_text = strip g
           in call (SetText DisplayArtistLabel
                      (if contains ''bieber'' (lower artist_text)
                       then ''[artist choice not endorsed]'' else artist_text))
                (s\<lparr>artist_label := artist_text\<rparr>)))"

definition scan_album :: "string \<Rightarrow> gui \<Rightarrow> gui" where
  "scan_album line s =
     (case re_album line of
        None \<Rightarrow> s
      | Some g \<Rightarrow> s\<lparr>album_label := strip g\<rparr>)"

definition scan_station :: "string \<Rightarrow> gui \<Rightarrow> gui" where
  "scan_station line s =
     (case re_station_loc line of
        None \<Rightarrow> s
      | Some (g1, g2, g3) \<Rightarrow>
          (case py_float g1 of
             None \<Rightarrow> s
           | Some lat \<Rightarrow>
               (case py_float g2 of
                  None \<Rightarrow> s
                | Some lon \<Rightarrow>
                    (case py_float g3 of
                       None \<Rightarrow> s
                     | Some alt \<Rightarrow>
                         s\<lparr>station_lat := Some lat, station_lon := Some lon,
                           station_alt := Some alt\<rparr>))))"

text \<open>The station point: the three attributes together.\<close>

definition station_of :: "gui \<Rightarrow> pyfloat option \<times> pyfloat option \<times> pyfloat option" where
  "station_of s = (station_lat s, station_lon s, station_alt s)"

definition metadata_in :: "string \<Rightarrow> bool" where
  "metadata_in line = (re_title line \<noteq> None \<or> re_artist line \<noteq> None \<or> re_album line \<noteq> None)"

text \<open>One line of the diagnostic text: the window after it, and whether it set \<open>metadata_changed\<close>.\<close>

definition scan_line :: "string \<Rightarrow> gui \<Rightarrow> bool \<times> gui" where
  "scan_line raw s =
     (let line = strip raw
      in if line = [] then (False, s)
         else (metadata_in line,
               scan_station line
                 (scan_album line
                   (scan_artist line
                     (scan_title line
                       (scan_ber line (append_log_line line s)))))))"

fun scan_lines :: "string list \<Rightarrow> bool \<times> gui \<Rightarrow> bool \<times> gui" where
  "scan_lines [] acc = acc"
| "scan_lines (raw # rest) (changed, s) =
     (case scan_line raw s of (c, s') \<Rightarrow> scan_lines rest (changed \<or> c, s'))"

text \<open>
  \<open>_parse_metadata_output\<close>, given the lines \<open>text.splitlines()\<close> yields for the text
  read from the standard error of the receiver.
\<close>

definition parse_metadata_output :: "string list \<Rightarrow> string \<Rightarrow> gui \<Rightarrow> gui" where
  "parse_metadata_output lines now_str s =
     (if proc_nrsc5 s = None then s
      else case scan_lines lines (False, s) of
             (metadata_changed, s') \<Rightarrow>
               if metadata_changed then maybe_add_history_entry now_str s' else s')"

subsection \<open>Streaming controls\<close>

text \<open>What the steps defined so far leave alone; the definition of \<open>stop_stream\<close> needs it.\<close>

lemma call_fields [simp]:
  "radio_running (call c s) = radio_running s"
  "recording (call c s) = recording s"
  "stopping_radio (call c s) = stopping_radio s"
  "proc_nrsc5 (call c s) = proc_nrsc5 s"
  "proc_play (call c s) = proc_play s"
  "proc_rec (call c s) = proc_rec s"
  "procs (call c s) = procs s"
  "qt (call c s) = qt s @ [c]"
  by (simp_all add: call_def)

lemma append_log_line_fields [simp]:
  "radio_running (append_log_line l s) = radio_running s"
  "recording (append_log_line l s) = recording s"
  "stopping_radio (append_log_line l s) = stopping_radio s"
  "proc_nrsc5 (append_log_line l s) = proc_nrsc5 s"
  "proc_play (append_log_line l s) = proc_play s"
  "proc_rec (append_log_line l s) = proc_rec s"
  "procs (append_log_line l s) = procs s"
  "qt (append_log_line l s) = qt s"
  by (simp_all add: append_log_line_def Let_def)

lemma set_pstate_fields [simp]:
  "radio_running (set_pstate i st s) = radio_running s"
  "recording (set_pstate i st s) = recording s"
  "stopping_radio (set_pstate i st s) = stopping_radio s"
  "proc_nrsc5 (set_pstate i st s) = proc_nrsc5 s"
  "proc_play (set_pstate i st s) = proc_play s"
  "proc_rec (set_pstate i st s) = proc_rec s"
  "procs (set_pstate i st s) = set_pst i st (procs s)"
  "qt (set_pstate i st s) = qt s"
  by (simp_all add: set_pstate_def)

lemma length_set_pst [simp]: "length (set_pst i st ps) = length ps"
  by (simp add: set_pst_def)

lemma pst_set_pst [simp]:
  "pst (set_pst i st ps) j = (if j = i \<and> i < length ps then st else pst ps j)"
  by (simp add: pst_def set_pst_def)

lemma pst_alive_less: "pst ps i \<noteq> NotRunning \<Longrightarrow> i < length ps"
  by (simp add: pst_def split: if_splits)

lemma on_process_error_fields [simp]:
  "radio_running (on_process_error n e s) = radio_running s"
  "recording (on_process_error n e s) = recording s"
  "stopping_radio (on_process_error n e s) = stopping_radio s"
  "proc_nrsc5 (on_process_error n e s) = proc_nrsc5 s"
  "proc_play (on_process_error n e s) = proc_play s"
  "proc_rec (on_process_error n e s) = proc_rec s"
  "procs (on_process_error n e s) = procs s"
  by (simp_all add: on_process_error_def Let_def)

lemma on_process_finished_fields [simp]:
  "radio_running (on_process_finished n c st s) = radio_running s"
  "recording (on_process_finished n c st s) = recording s"
  "stopping_radio (on_process_finished n c st s) = stopping_radio s"
  "proc_nrsc5 (on_process_finished n c st s) = proc_nrsc5 s"
  "proc_play (on_process_finished n c st s) = proc_play s"
  "proc_rec (on_process_finished n c st s) = proc_rec s"
  "procs (on_process_finished n c st s) = procs s"
  "qt (on_process_finished n c st s) = qt s"
  by (simp_all add: on_process_finished_def)

lemma stop_recording_recording [simp]: "recording (stop_recording w s) = False"
  by (simp add: stop_recording_def Let_def)


text \<open>A wait with the slots of a consumer revives no process and keeps the handles.\<close>

lemma wait_consumer_dead:
  "pstate_of s j = NotRunning \<Longrightarrow>
   pstate_of (snd (wait_for_finished (on_process_error n) (on_process_finished n) r i s)) j =
     NotRunning"
  by (simp add: wait_for_finished_def split: finish_reply.split)

lemma wait_consumer_nrsc5 [simp]:
  "proc_nrsc5 (snd (wait_for_finished (on_process_error n) (on_process_finished n) r i s)) =
     proc_nrsc5 s"
  by (simp add: wait_for_finished_def split: finish_reply.split)

lemma stop_recording_nrsc5 [simp]: "proc_nrsc5 (stop_recording w s) = proc_nrsc5 s"
  by (simp add: stop_recording_def Let_def split_beta split: option.split)

lemma stop_recording_dead:
  "pstate_of s j = NotRunning \<Longrightarrow> pstate_of (stop_recording w s) j = NotRunning"
  by (simp add: stop_recording_def Let_def split_beta wait_consumer_dead split: option.split)

text \<open>
  \<open>_kill_process\<close> calls the slot of \<open>finished\<close> only for a process that was alive and
  has just ended.
\<close>

lemma kill_process_cong [fundef_cong]:
  assumes "w = w'" "err = err'" "proc = proc'" "s = s'"
    and "\<And>i c st t. proc' = Some i \<Longrightarrow> pstate_of s' i \<noteq> NotRunning \<Longrightarrow>
            t = set_pstate i NotRunning (call (ProcTerminate i) s') \<or>
            t = err' Crashed (set_pstate i NotRunning (call (ProcTerminate i) s')) \<Longrightarrow>
            fin c st t = fin' c st t"
  shows "kill_process w err fin proc s = kill_process w' err' fin' proc' s'"
  using assms
  by (auto simp: kill_process_def wait_for_finished_def split: option.splits finish_reply.splits)

definition update_ui_state :: "bool \<Rightarrow> gui \<Rightarrow> gui" where
  "update_ui_state running s =
     (let s1 = call (SetEnabled RadioBtn True) (s\<lparr>radio_btn_enabled := True\<rparr>);
          s2 = call (SetEnabled RecordBtn running) s1;
          s3 = call (SetEnabled BrowseDirBtn (\<not> running))
                 (call (SetEnabled RecordDirEdit (\<not> running))
                   (call (SetEnabled PortEdit (\<not> running))
                     (call (SetEnabled ProgCombo (\<not> running))
                       (call (SetEnabled HostEdit (\<not> running))
                         (call (SetEnabled FreqEdit (\<not> running)) s2)))))
      in s3\<lparr>status_text :=
               (if running
                then (if \<not> recording s3 then ''Status: Listening'' else status_text s3)
                else ''Status: Idle'')\<rparr>)"

text \<open>Whether the process behind the handle \<open>proc_nrsc5\<close> is alive.\<close>

definition nrsc5_alive :: "gui \<Rightarrow> nat" where
  "nrsc5_alive s =
     (case proc_nrsc5 s of
        None \<Rightarrow> 0
      | Some i \<Rightarrow> if pstate_of s i \<noteq> NotRunning then 1 else 0)"

text \<open>
  \<open>stop_stream\<close> and \<open>_on_nrsc5_finished\<close> call each other: the wait inside
  \<open>_kill_process(self.proc_nrsc5)\<close> delivers \<open>finished\<close> to \<open>_on_nrsc5_finished\<close>, which
  calls \<open>stop_stream\<close> again when \<open>radio_running\<close> is set and \<open>stopping_radio\<close> is not.
\<close>

function stop_stream :: "world \<Rightarrow> gui \<Rightarrow> gui"
  and on_nrsc5_finished :: "world \<Rightarrow> int \<Rightarrow> exit_status \<Rightarrow> gui \<Rightarrow> gui" where
  "stop_stream w s =
     (let s1 = stop_recording w s;
          s2 = kill_process w (on_process_error ''nrsc5'') (on_nrsc5_finished w)
                 (proc_nrsc5 s1) s1;
          s3 = kill_process w (on_process_error ''ffplay'') (on_process_finished ''ffplay'')
                 (proc_play s2) s2;
          s4 = s3\<lparr>proc_nrsc5 := None, proc_play := None, radio_running := False\<rparr>
      in update_ui_state False (call (SetText RadioBtn ''Start Radio'') s4))"
| "on_nrsc5_finished w exitCode exitStatus s =
     (let s1 = on_process_finished ''nrsc5'' exitCode exitStatus s
      in if radio_running s1 \<and> \<not> stopping_radio s1 then stop_stream w s1 else s1)"
  by pat_completeness auto
termination
proof (relation "measure (\<lambda>x. case x of
                     Inl (w, s) \<Rightarrow> 2 * nrsc5_alive (stop_recording w s) + 1
                   | Inr (w, c, st, s) \<Rightarrow> 2 * nrsc5_alive s + 2)", goal_cases)
  case 1
  show ?case by simp
next
  case (2 w s s1 i c st t)
  then show ?case
    by (auto simp: nrsc5_alive_def dest: pst_alive_less)
next
  case (3 w c st s s1)
  have "nrsc5_alive (stop_recording w s1) \<le> nrsc5_alive s1"
    using stop_recording_dead [of s1 _ w]
    by (auto simp: nrsc5_alive_def split: option.split)
  moreover have "nrsc5_alive s1 = nrsc5_alive s"
    using 3 by (simp add: nrsc5_alive_def split: option.split)
  ultimately show ?case
    using 3 by simp
qed

declare stop_stream.simps [simp del] on_nrsc5_finished.simps [simp del]

definition reset_labels :: "gui \<Rightarrow> gui" where
  "reset_labels s =
     (let s1 = call (SetText DisplayArtistLabel em_dash)
                 (call (SetText DisplayTitleLabel em_dash)
                   (s\<lparr>title_label := em_dash, artist_label := em_dash, album_label := em_dash\<rparr>));
          s2 = call (SetText RecordTimeLabel [])
                 ((call TimerStop (s1\<lparr>record_duration_text := []\<rparr>))\<lparr>record_start_time := None\<rparr>)
      in s2\<lparr>station_lat := None, station_lon := None, station_alt := None,
             ber_history := [], log_text := [],
             last_title := None, last_artist := None, last_album := None,
             history_table := []\<rparr>)"

text \<open>A message box and the focus moved to the field at fault.\<close>

definition input_error :: "string \<Rightarrow> widget \<Rightarrow> gui \<Rightarrow> gui" where
  "input_error text field s =
     call (SetFocus field) (call (MessageBox Warning ''Input Error'' text) s)"

text \<open>\<open>_validate_start_inputs\<close>: the value returned and the window after it.\<close>

definition validate_start_inputs :: "gui \<Rightarrow> bool \<times> gui" where
  "validate_start_inputs s =
     (case py_float (strip (freq_edit s)) of
        None \<Rightarrow> (False, input_error ''Frequency must be a number (MHz).'' FreqEdit s)
      | Some freq_val \<Rightarrow>
          if le_zero freq_val
          then (False, input_error ''Frequency must be greater than zero.'' FreqEdit s)
          else
            (let host = strip (host_edit s);
                 port_text = strip (port_edit s)
             in if host \<noteq> [] then
                  (if port_text = [] then
                     (False, input_error
                        ''Port is required when a remote rtl_tcp host is specified.'' PortEdit s)
                   else
                     (case py_int port_text of
                        None \<Rightarrow> (False, input_error ''Port must be an integer.'' PortEdit s)
                      | Some port_val \<Rightarrow>
                          if \<not> (1 \<le> port_val \<and> port_val \<le> 65535)
                          then (False, input_error ''Port must be between 1 and 65535.'' PortEdit s)
                          else (True, s)))
                else (True, s)))"

definition play_args :: "string list" where
  "play_args = [''-nodisp'', ''-autoexit'', ''-hide_banner'', ''-loglevel'', ''quiet'',
     ''-f'', ''s16le'', ''-ar'', ''44100'', ''-ac'', ''2'', ''-fflags'', ''nobuffer'',
     ''-flags'', ''low_delay'', ''-i'', ''pipe:0'']"

definition nrsc_args :: "gui \<Rightarrow> string list" where
  "nrsc_args s =
     (let freq = strip (freq_edit s);
          prog = strip (str_nat (prog_combo s));
          host = strip (host_edit s);
          port = strip (port_edit s)
      in (if host \<noteq> [] then [''-H'', if port \<noteq> [] then host @ '':'' @ port else host] else [])
         @ [freq, prog, ''-o'', ''-''])"

definition start_stream :: "world \<Rightarrow> gui \<Rightarrow> gui" where
  "start_stream w s =
     (if radio_running s then s
      else case validate_start_inputs s of
        (ok, s0) \<Rightarrow>
          if \<not> ok then s0
          else
            (let i = length (procs s0);
                 s1 = spawn ''ffplay'' play_args (s0\<lparr>proc_play := Some i\<rparr>)
             in case wait_for_started (on_process_error ''ffplay'') (on_start (w i)) i s1 of
                  (play_started, s2) \<Rightarrow>
                    if \<not> play_started then
                      (let s3 = call (MessageBox Critical ''Error'' ''Failed to start ffplay.'') s2
                       in (kill_process w (on_process_error ''ffplay'')
                             (on_process_finished ''ffplay'') (proc_play s3) s3)
                          \<lparr>proc_play := None\<rparr>)
                    else
                      (let j = length (procs s2);
                           s4 = spawn ''nrsc5'' (nrsc_args s0) (s2\<lparr>proc_nrsc5 := Some j\<rparr>)
                       in case wait_for_started (on_process_error ''nrsc5'') (on_start (w j)) j s4 of
                            (nrsc5_started, s5) \<Rightarrow>
                              if nrsc5_started then
                                reset_labels
                                  (update_ui_state True
                                    (call (SetText RadioBtn ''Stop Radio'')
                                      (s5\<lparr>radio_running := True\<rparr>)))
                              else
                                stop_stream w
                                  (call (MessageBox Critical ''Error'' ''Failed to start nrsc5.'')
                                     s5))))"

definition toggle_radio :: "world \<Rightarrow> gui \<Rightarrow> gui" where
  "toggle_radio w s =
     (if \<not> radio_btn_enabled s then s
      else
        (let s0 = call (SetEnabled RadioBtn False) (s\<lparr>radio_btn_enabled := False\<rparr>);
             s1 = (if radio_running s0
                   then (stop_stream w (s0\<lparr>stopping_radio := True\<rparr>))\<lparr>stopping_radio := False\<rparr>
                   else start_stream w s0)
         in call (SetEnabled RadioBtn True) (s1\<lparr>radio_btn_enabled := True\<rparr>)))"

text \<open>\<open>_select_program_by_number\<close>; the programs offered are \<open>0\<close> to \<open>3\<close>.\<close>

definition select_program_by_number :: "string \<Rightarrow> gui \<Rightarrow> gui" where
  "select_program_by_number prog_str s =
     (case filter (\<lambda>i. strip (str_nat i) = prog_str) [0, 1, 2, 3] of
        [] \<Rightarrow> s
      | i # _ \<Rightarrow> s\<lparr>prog_combo := i\<rparr>)"

text \<open>\<open>_tune_preset_item\<close>, for a preset with the frequency \<open>freq\<close> and the program \<open>prog\<close>.\<close>

definition tune_preset_item :: "world \<Rightarrow> string \<Rightarrow> string \<Rightarrow> gui \<Rightarrow> gui" where
  "tune_preset_item w freq prog s =
     (let s1 = (if freq \<noteq> [] then s\<lparr>freq_edit := freq\<rparr> else s);
          s2 = select_program_by_number prog s1
      in if radio_running s2
         then start_stream w ((stop_stream w (s2\<lparr>stopping_radio := True\<rparr>))\<lparr>stopping_radio := False\<rparr>)
         else s2)"

text \<open>\<open>closeEvent\<close> (saving the settings is left out).\<close>

definition close_event :: "world \<Rightarrow> gui \<Rightarrow> gui" where
  "close_event w s = stop_stream w (s\<lparr>stopping_radio := True\<rparr>)"

subsection \<open>Starting a recording\<close>

definition ffmpeg_args :: "string \<Rightarrow> string list" where
  "ffmpeg_args file = [''-y'', ''-hide_banner'', ''-loglevel'', ''error'', ''-f'', ''s16le'',
     ''-ar'', ''44100'', ''-ac'', ''2'', ''-i'', ''pipe:0'', ''-codec:a'', ''libmp3lame'',
     ''-qscale:a'', ''2'', file]"

text \<open>
  \<open>start_recording\<close>. The file name \<open>_make_filename\<close> builds (from the labels, the
  clock and the file system) and the time \<open>now\<close>, in seconds, are parameters.
\<close>

definition start_recording :: "world \<Rightarrow> string \<Rightarrow> int \<Rightarrow> gui \<Rightarrow> gui" where
  "start_recording w file now s =
     (if \<not> radio_running s then s
      else
        (let i = length (procs s);
             s1 = spawn ''ffmpeg'' (ffmpeg_args file)
                    (s\<lparr>current_record_file := Some file, proc_rec := Some i\<rparr>)
         in case wait_for_started (on_process_error ''ffmpeg'') (on_start (w i)) i s1 of
              (started, s2) \<Rightarrow>
                if started then
                  call (SetStyleSheet RecordBtn ''background-color: #ffcccc'')
                    (call (SetText RecordTimeLabel ''00:00:00'')
                      (call TimerStart
                        ((call (SetText RecordBtn ''Stop Recording'') (s2\<lparr>recording := True\<rparr>))
                         \<lparr>status_text := ''Status: Listening & Recording'',
                          record_start_time := Some now,
                          record_duration_text := ''00:00:00''\<rparr>)))
                else call (MessageBox Warning ''Error'' ''Could not start ffmpeg recorder.'') s2))"

definition toggle_recording :: "world \<Rightarrow> string \<Rightarrow> int \<Rightarrow> gui \<Rightarrow> gui" where
  "toggle_recording w file now s =
     (if recording s then stop_recording w s else start_recording w file now s)"

text \<open>\<open>{n:02}\<close> in a format string.\<close>

definition pad2 :: "int \<Rightarrow> string" where
  "pad2 n = (if 0 \<le> n \<and> n < 10 then CHR ''0'' # str_int n else str_int n)"

definition update_record_duration :: "int \<Rightarrow> gui \<Rightarrow> gui" where
  "update_record_duration now s =
     (case record_start_time s of
        None \<Rightarrow> s
      | Some start \<Rightarrow>
          if \<not> recording s then s
          else
            (let total_secs = now - start;
                 text = pad2 (total_secs div 3600) @ '':'' @ pad2 ((total_secs mod 3600) div 60)
                        @ '':'' @ pad2 (total_secs mod 60)
             in call (SetText RecordTimeLabel text) (s\<lparr>record_duration_text := text\<rparr>)))"

subsection \<open>The data pump\<close>

text \<open>\<open>_distribute_audio_data\<close>, for the bytes \<open>data\<close> read from the receiver.\<close>

definition distribute_audio_data :: "string \<Rightarrow> gui \<Rightarrow> gui" where
  "distribute_audio_data data s =
     (if proc_nrsc5 s = None then s
      else if data = [] then s
      else
        (let s1 = (case proc_play s of
                     None \<Rightarrow> s
                   | Some i \<Rightarrow> if pstate_of s i = Running then call (ProcWrite i data) s else s)
         in if recording s1 then
              (case proc_rec s1 of
                 None \<Rightarrow> s1
               | Some i \<Rightarrow> if pstate_of s1 i = Running then call (ProcWrite i data) s1 else s1)
            else s1))"

subsection \<open>Events\<close>

text \<open>
  All state changes on the one thread of the event loop, one event at a time: the
  clicks and edits of the user, the data of the receiver, the timer, and what a process
  does on its own (it starts late, fails to start, ends, reports an error). The signals
  of a process go to the slots connected when it was created, which its program
  determines. A handler runs to its end before the next event is taken: what Qt would
  deliver inside the nested event loop of a message box is taken after the handler.
\<close>

datatype event =
    ToggleRadio
  | ToggleRecording string int
  | TunePreset string string
  | CloseEvent
  | AudioReady string
  | DiagnosticReady "string list" string
  | TimerTick int
  | ProcessStarts nat
  | ProcessFailsToStart nat
  | ProcessEnds nat int exit_status
  | ProcessError nat perror
  | EditFrequency string
  | EditHost string
  | EditPort string
  | SelectProgram nat
  | ClearLog

definition slot_error :: "nat \<Rightarrow> perror \<Rightarrow> gui \<Rightarrow> gui" where
  "slot_error i e s = on_process_error (program (procs s ! i)) e s"

definition slot_finished :: "world \<Rightarrow> nat \<Rightarrow> int \<Rightarrow> exit_status \<Rightarrow> gui \<Rightarrow> gui" where
  "slot_finished w i c st s =
     (if program (procs s ! i) = ''nrsc5'' then on_nrsc5_finished w c st s
      else on_process_finished (program (procs s ! i)) c st s)"

fun fire :: "world \<Rightarrow> event \<Rightarrow> gui \<Rightarrow> gui" where
  "fire w ToggleRadio s = toggle_radio w s"
| "fire w (ToggleRecording file now) s = toggle_recording w file now s"
| "fire w (TunePreset freq prog) s = tune_preset_item w freq prog s"
| "fire w CloseEvent s = close_event w s"
| "fire w (AudioReady data) s = distribute_audio_data data s"
| "fire w (DiagnosticReady lines now_str) s = parse_metadata_output lines now_str s"
| "fire w (TimerTick now) s = update_record_duration now s"
| "fire w (ProcessStarts i) s =
     (if pstate_of s i = Starting then set_pstate i Running s else s)"
| "fire w (ProcessFailsToStart i) s =
     (if pstate_of s i = Starting then slot_error i FailedToStart (set_pstate i NotRunning s)
      else s)"
| "fire w (ProcessEnds i c st) s =
     (if pstate_of s i = NotRunning then s
      else
        (let s1 = set_pstate i NotRunning s;
             s2 = (if st = CrashExit then slot_error i Crashed s1 else s1)
         in slot_finished w i c st s2))"
| "fire w (ProcessError i e) s = (if i < length (procs s) then slot_error i e s else s)"
| "fire w (EditFrequency text) s = s\<lparr>freq_edit := text\<rparr>"
| "fire w (EditHost text) s = s\<lparr>host_edit := text\<rparr>"
| "fire w (EditPort text) s = s\<lparr>port_edit := text\<rparr>"
| "fire w (SelectProgram i) s = (if i < 4 then s\<lparr>prog_combo := i\<rparr> else s)"
| "fire w ClearLog s = s\<lparr>log_text := []\<rparr>"

text \<open>
  The window as \<open>__init__\<close> builds it, before the persisted settings are loaded into
  the input fields.
\<close>

definition init :: gui where
  "init = \<lparr>radio_running = False, recording = False, stopping_radio = False,
     station_lat = None, station_lon = None, station_alt = None,
     ber_history = [], status_text = ''Status: Idle'',
     record_start_time = None, record_duration_text = [],
     last_title = None, last_artist = None, last_album = None,
     freq_edit = ''106.9'', host_edit = ''192.168.0.162'', port_edit = ''1234'',
     prog_combo = 0, radio_btn_enabled = True,
     proc_nrsc5 = None, proc_play = None, proc_rec = None,
     current_record_file = None,
     title_label = em_dash, artist_label = em_dash, album_label = em_dash,
     log_text = [], history_table = [], procs = [], qt = []\<rparr>"

text \<open>A world in which every process starts and ends when asked to.\<close>

definition obedient :: world where
  "obedient = (\<lambda>i. \<lparr>on_start = Started, on_close = Exits 0 NormalExit,
                      on_terminate = Exits 15 CrashExit\<rparr>)"

text \<open>The windows a run of events reaches from the initial one.\<close>

inductive reachable :: "world \<Rightarrow> gui \<Rightarrow> bool" for w :: world where
  start: "reachable w init"
| step: "reachable w s \<Longrightarrow> reachable w (fire w ev s)"

section \<open>Presets\<close>

text \<open>
  The data of a preset item is the dictionary \<open>meta\<close>: for an item made by \<open>_add_preset\<close>
  the three strings \<open>name\<close>, \<open>freq\<close> and \<open>prog\<close>; for an imported one whatever JSON
  object the file held. A JSON value:
\<close>

datatype json = JNull | JBool bool | JInt int | JFloat real | JStr string
  | JList "json list" | JObj "(string, json) fmap"

text \<open>The truth value Python gives a value (\<open>if not freq\<close>, \<open>name or ...\<close>).\<close>

fun truthy :: "json \<Rightarrow> bool" where
  "truthy JNull = False"
| "truthy (JBool b) = b"
| "truthy (JInt i) = (i \<noteq> 0)"
| "truthy (JFloat r) = (r \<noteq> 0)"
| "truthy (JStr s) = (s \<noteq> [])"
| "truthy (JList xs) = (xs \<noteq> [])"
| "truthy (JObj m) = (m \<noteq> fmempty)"

fun is_str :: "json \<Rightarrow> bool" where
  "is_str (JStr s) = True"
| "is_str _ = False"

fun is_dict :: "json \<Rightarrow> bool" where
  "is_dict (JObj m) = True"
| "is_dict _ = False"

text \<open>\<open>meta.get(key, default)\<close>.\<close>

definition get :: "(string, json) fmap \<Rightarrow> string \<Rightarrow> json \<Rightarrow> json" where
  "get m key dflt = (case fmlookup m key of Some v \<Rightarrow> v | None \<Rightarrow> dflt)"

text \<open>
  The list widget is modelled by the data of its items, in order; the text an item
  shows is left out. \<open>_add_preset\<close>, for the texts of the frequency field and of the
  name field and the program selected:
\<close>

definition add_preset :: "string \<Rightarrow> nat \<Rightarrow> string \<Rightarrow> json list \<Rightarrow> json list" where
  "add_preset freq_text prog_num name_text presets =
     (let freq = strip freq_text;
          prog_str = str_nat prog_num
      in if freq = [] then presets
         else
           (let name = (if strip name_text \<noteq> [] then strip name_text
                        else freq @ '' MHz P'' @ prog_str)
            in presets @
               [JObj (fmupd ''name'' (JStr name)
                       (fmupd ''freq'' (JStr freq)
                         (fmupd ''prog'' (JStr prog_str) fmempty)))]))"

text \<open>
  \<open>_export_presets\<close>: the value \<open>json.dump\<close> writes, the data of the items that are
  dictionaries. (The dialog that asks for the file and the failure to write it are left
  out.)
\<close>

definition export_presets :: "json list \<Rightarrow> json" where
  "export_presets presets = JList (filter is_dict presets)"

text \<open>
  \<open>_import_presets\<close>, for the value \<open>json.load\<close> returns. A file that does not hold a
  list is refused with a warning. An entry that is not a dictionary, or whose \<open>freq\<close>
  is missing or empty, is skipped. The text of the item is built with \<open>+\<close> from \<open>freq\<close>
  and \<open>prog\<close> when the name is empty, which raises \<open>TypeError\<close> unless both are strings:
  the import stops there, with the items added so far.
\<close>

datatype imported = Imported "json list" | InvalidFormat | TypeError "json list"

fun import_items :: "json list \<Rightarrow> json list \<Rightarrow> imported" where
  "import_items [] presets = Imported presets"
| "import_items (JObj meta # rest) presets =
     (let name = get meta ''name'' (JStr []);
          freq = get meta ''freq'' (JStr []);
          prog = get meta ''prog'' (JStr ''0'')
      in if \<not> truthy freq then import_items rest presets
         else if \<not> truthy name \<and> \<not> (is_str freq \<and> is_str prog) then TypeError presets
         else import_items rest (presets @ [JObj meta]))"
| "import_items (_ # rest) presets = import_items rest presets"

definition import_presets :: "json \<Rightarrow> json list \<Rightarrow> imported" where
  "import_presets data presets =
     (case data of JList metas \<Rightarrow> import_items metas presets | _ \<Rightarrow> InvalidFormat)"

text \<open>
  An item as every way of adding one makes it: a dictionary with a non-empty \<open>freq\<close>
  whose text can be built.
\<close>

fun preset_ok :: "json \<Rightarrow> bool" where
  "preset_ok (JObj meta) =
     (truthy (get meta ''freq'' (JStr [])) \<and>
      (truthy (get meta ''name'' (JStr [])) \<or>
       is_str (get meta ''freq'' (JStr [])) \<and> is_str (get meta ''prog'' (JStr ''0''))))"
| "preset_ok _ = False"

section \<open>The inputs of a start\<close>

text \<open>
  The two tests of \<open>_validate_start_inputs\<close>, as the code makes them: the frequency
  is refused when \<open>float\<close> raises or the value is \<open><= 0\<close>; the port is refused when a
  host is given and the port is empty, \<open>int\<close> raises, or the value is outside 1 to 65535.
\<close>

definition frequency_refused :: "gui \<Rightarrow> bool" where
  "frequency_refused s =
     (case py_float (strip (freq_edit s)) of None \<Rightarrow> True | Some v \<Rightarrow> le_zero v)"

definition port_refused :: "gui \<Rightarrow> bool" where
  "port_refused s =
     (strip (host_edit s) \<noteq> [] \<and>
      (strip (port_edit s) = [] \<or>
       (case py_int (strip (port_edit s)) of None \<Rightarrow> True | Some p \<Rightarrow> p < 1 \<or> 65535 < p)))"

text \<open>
  What the specification asks of the frequency: a number, and greater than zero. The
  values \<open>nan\<close> and \<open>inf\<close> of \<open>float\<close> are no numbers.
\<close>

definition valid_frequency :: "gui \<Rightarrow> bool" where
  "valid_frequency s =
     (case py_float (strip (freq_edit s)) of Some (Fin r) \<Rightarrow> 0 < r | _ \<Rightarrow> False)"

text \<open>Whether a call into Qt shows a message box.\<close>

fun is_message_box :: "qcall \<Rightarrow> bool" where
  "is_message_box (MessageBox k title msg) = True"
| "is_message_box _ = False"

section \<open>Observations of a run\<close>

text \<open>The window after a list of events, handled in order.\<close>

fun run :: "world \<Rightarrow> event list \<Rightarrow> gui \<Rightarrow> gui" where
  "run w [] s = s"
| "run w (ev # evs) s = run w evs (fire w ev s)"

text \<open>
  A world like \<open>obedient\<close>, except that process 2 (the first recorder of the first
  session) has not started when the wait for it ends.
\<close>

definition late_recorder :: world where
  "late_recorder =
     (\<lambda>i. if i = 2 then \<lparr>on_start = StartPending, on_close = StaysAlive,
                           on_terminate = StaysAlive\<rparr>
          else obedient i)"

text \<open>
  Every run of \<open>stop_stream\<close> ends with \<open>radio_btn.setText("Start Radio")\<close>, and nothing
  else makes this call: its count in a trace is the number of stop sequences run.
\<close>

definition stop_count :: "qcall list \<Rightarrow> nat" where
  "stop_count q = length (filter (\<lambda>c. c = SetText RadioBtn ''Start Radio'') q)"

text \<open>The calls of a trace that write bytes to the process \<open>r\<close>.\<close>

fun write_to :: "nat \<Rightarrow> qcall \<Rightarrow> bool" where
  "write_to r (ProcWrite i d) = (i = r)"
| "write_to r _ = False"

definition written :: "nat \<Rightarrow> qcall list \<Rightarrow> qcall list" where
  "written r q = filter (write_to r) q"

text \<open>
  Two invariants of the window. The process \<open>r\<close> is out of reach of the data pump when it
  is neither the player nor, while a recording is going on, the recorder. The handles
  are in order when the player is a process of the table and nothing was written to a
  process not yet created.
\<close>

definition out_of_reach :: "nat \<Rightarrow> gui \<Rightarrow> bool" where
  "out_of_reach r s =
     (r < length (procs s) \<and> proc_play s \<noteq> Some r \<and> (recording s \<longrightarrow> proc_rec s \<noteq> Some r))"

definition handles_ok :: "gui \<Rightarrow> bool" where
  "handles_ok s =
     ((\<forall>j. proc_play s = Some j \<longrightarrow> j < length (procs s)) \<and>
      (\<forall>r. length (procs s) \<le> r \<longrightarrow> written r (qt s) = []))"

section \<open>Properties\<close>

subsection \<open>Stopping a recording that is not running\<close>

text \<open>
  C8. When \<open>recording\<close> is off, \<open>stop_recording\<close> returns the window as it is: no
  attribute changes, no call reaches a process or a widget (the trace \<open>qt\<close> and the
  process table are part of the window), and there is no error to return. Hence a
  second \<open>stop_recording\<close> changes nothing whatever the first one did.
\<close>

theorem stop_recording_noop:
  "(\<not> recording s \<longrightarrow> stop_recording w s = s) \<and>
   stop_recording w' (stop_recording w s) = stop_recording w s"
proof
  show "\<not> recording s \<longrightarrow> stop_recording w s = s"
    by (simp add: stop_recording_def)
next
  have "\<And>t. \<not> recording t \<Longrightarrow> stop_recording w' t = t"
    by (simp add: stop_recording_def)
  then show "stop_recording w' (stop_recording w s) = stop_recording w s"
    by simp
qed

theorem stop_recording_noop_witness:
  "\<not> recording init \<and> stop_recording obedient init = init \<and>
   stop_recording obedient (stop_recording obedient init) = stop_recording obedient init"
  using stop_recording_noop [of init obedient obedient]
  by (simp add: init_def)

subsection \<open>Classification of process notifications\<close>




subsection \<open>The BER series\<close>

lemma update_ber_graph_history:
  "ber_history (update_ber_graph v s) =
     drop (length (ber_history s @ [v]) - 300) (ber_history s @ [v])"
  by (simp add: update_ber_graph_def Let_def last_n_def ber_max_points_def)

lemma drop_window_step:
  assumes "length h \<le> 300"
  shows "drop (length (drop (length (h @ [v]) - 300) (h @ [v]) @ vs) - 300)
           (drop (length (h @ [v]) - 300) (h @ [v]) @ vs) =
         drop (length (h @ v # vs) - 300) (h @ v # vs)"
proof (cases "length h < 300")
  case True
  then show ?thesis by simp
next
  case False
  with assms have len: "length h = 300" by simp
  then obtain x t where h: "h = x # t" by (cases h) auto
  with len have "length t = 299" by simp
  then show ?thesis by (simp add: h)
qed

lemma ber_appends:
  "length (ber_history s) \<le> 300 \<Longrightarrow>
   ber_history (foldl (\<lambda>t v. update_ber_graph v t) s vs) =
     drop (length (ber_history s @ vs) - 300) (ber_history s @ vs)"
proof (induction vs arbitrary: s)
  case Nil
  then show ?case by simp
next
  case (Cons v vs)
  have len: "length (ber_history (update_ber_graph v s)) \<le> 300"
    using Cons.prems by (simp add: update_ber_graph_history)
  have "ber_history (foldl (\<lambda>t v. update_ber_graph v t) (update_ber_graph v s) vs) =
        drop (length (ber_history s @ v # vs) - 300) (ber_history s @ v # vs)"
    unfolding Cons.IH [OF len] update_ber_graph_history
    by (rule drop_window_step [OF Cons.prems])
  then show ?case by simp
qed

text \<open>
  C4. After \<open>n\<close> appends to an empty series the series is the last \<open>min n 300\<close> values
  appended, in the order of their arrival, and has that length.
\<close>

theorem ber_series_last_300:
  assumes "ber_history s = []"
  shows "ber_history (foldl (\<lambda>t v. update_ber_graph v t) s vs) = drop (length vs - 300) vs \<and>
         length (ber_history (foldl (\<lambda>t v. update_ber_graph v t) s vs)) = min (length vs) 300"
  using assms by (auto simp: ber_appends)

theorem ber_series_last_300_witness:
  "ber_history init = [] \<and>
   ber_history (foldl (\<lambda>t v. update_ber_graph v t) init [Fin 1, Fin 2, Fin 3]) =
     [Fin 1, Fin 2, Fin 3]"
  using ber_series_last_300 [of init "[Fin 1, Fin 2, Fin 3]"]
  by (simp add: init_def)

subsection \<open>The sign of a BER sample\<close>

lemmas py_float_eval = py_float_def opt_sign_def strip_def is_space_def decimal_def
  digitpart_def is_digit_def digit_val_def nat_of_digits_def fl_def lower_def lower_char_def
  exponent_def pow10_def

lemma set_strip: "set (strip s) \<subseteq> set s"
proof -
  have "set (strip s) = set (dropWhile is_space (rev (dropWhile is_space s)))"
    by (simp add: strip_def)
  also have "\<dots> \<subseteq> set (rev (dropWhile is_space s))" by (rule set_dropWhileD [THEN subsetI])
  also have "\<dots> \<subseteq> set s" by (auto dest: set_dropWhileD)
  finally show ?thesis .
qed

lemma search_Some: "search m t = Some g \<Longrightarrow> \<exists>u. m u = Some g \<and> set u \<subseteq> set t"
proof (induction t)
  case Nil
  then show ?case by auto
next
  case (Cons c cs)
  show ?case
  proof (cases "m (c # cs)")
    case None
    with Cons obtain u where "m u = Some g" "set u \<subseteq> set cs" by auto
    then show ?thesis by auto
  next
    case (Some a)
    with Cons.prems show ?thesis by auto
  qed
qed

lemma after_lit_set: "after_lit lit t = Some r \<Longrightarrow> set r \<subseteq> set t"
  by (auto simp: after_lit_def split: if_splits dest: in_set_dropD)

lemma ber_number_set:
  assumes "ber_number r = Some g"
  shows "set g \<subseteq> set r \<and> (\<forall>c\<in>set g. ber_class c \<or> c = CHR ''.'')"
proof -
  define t where "t = dropWhile is_space r"
  define a where "a = takeWhile is_digit t"
  define q where "q = dropWhile is_digit t"
  have t: "set t \<subseteq> set r" by (auto simp: t_def dest: set_dropWhileD)
  have a: "set a \<subseteq> set t" "\<forall>c\<in>set a. ber_class c"
    by (auto simp: a_def ber_class_def dest: set_takeWhileD)
  have q: "set q \<subseteq> set t" by (auto simp: q_def dest: set_dropWhileD)
  have tq: "set (takeWhile ber_class q) \<subseteq> set t" "\<forall>c\<in>set (takeWhile ber_class q). ber_class c"
    using q by (auto dest: set_takeWhileD)
  have tlq: "set (takeWhile ber_class (tl q)) \<subseteq> set t"
    "\<forall>c\<in>set (takeWhile ber_class (tl q)). ber_class c"
  proof -
    have "set (tl q) \<subseteq> set q" by (cases q) auto
    with q show "set (takeWhile ber_class (tl q)) \<subseteq> set t"
      by (auto dest: set_takeWhileD)
    show "\<forall>c\<in>set (takeWhile ber_class (tl q)). ber_class c"
      by (auto dest: set_takeWhileD)
  qed
  have dotin: "q \<noteq> [] \<Longrightarrow> hd q = CHR ''.'' \<Longrightarrow> CHR ''.'' \<in> set t"
    using q by (cases q) auto
  have bn: "ber_number r =
      (if q \<noteq> [] \<and> hd q = CHR ''.'' \<and> takeWhile ber_class (tl q) \<noteq> []
       then Some (a @ ''.'' @ takeWhile ber_class (tl q))
       else if takeWhile ber_class q \<noteq> [] then Some (a @ takeWhile ber_class q)
       else if a \<noteq> [] then Some a
       else None)"
    unfolding ber_number_def Let_def t_def a_def q_def ..
  from assms [unfolded bn] consider
      (dot) "g = a @ ''.'' @ takeWhile ber_class (tl q)" "q \<noteq> []" "hd q = CHR ''.''"
    | (run) "g = a @ takeWhile ber_class q"
    | (dig) "g = a"
    by (auto split: if_splits)
  then have "set g \<subseteq> set t \<and> (\<forall>c\<in>set g. ber_class c \<or> c = CHR ''.'')"
  proof cases
    case dot
    have "set g = set a \<union> {CHR ''.''} \<union> set (takeWhile ber_class (tl q))"
      by (simp add: dot(1))
    with a tlq dotin [OF dot(2,3)]
    show ?thesis by blast
  next
    case run
    have "set g = set a \<union> set (takeWhile ber_class q)" by (simp add: run)
    with a tq show ?thesis by blast
  next
    case dig
    with a show ?thesis by blast
  qed
  with t show ?thesis by blast
qed

lemma re_ber_set:
  assumes "re_ber line = Some g"
  shows "set g \<subseteq> set line \<and> (\<forall>c\<in>set g. ber_class c \<or> c = CHR ''.'')"
proof -
  from assms obtain u where u: "(case after_lit ''BER:'' u of Some r \<Rightarrow> ber_number r | None \<Rightarrow> None) = Some g"
    "set u \<subseteq> set line"
    unfolding re_ber_def by (blast dest: search_Some)
  then obtain r where r: "after_lit ''BER:'' u = Some r" "ber_number r = Some g"
    by (auto split: option.splits)
  from ber_number_set [OF r(2)] after_lit_set [OF r(1)] u(2) show ?thesis by auto
qed

lemma ge_zero_fl: "0 \<le> r \<Longrightarrow> ge_zero (fl r)"
  by (simp add: fl_def)

lemma ge_zero_times100: "ge_zero v \<Longrightarrow> ge_zero (times100 v)"
  by (cases v) (simp_all add: ge_zero_fl)

lemma pow10_nonneg: "0 \<le> pow10 e"
  by (simp add: pow10_def)

lemma decimal_nonneg: "decimal s = Some r \<Longrightarrow> 0 \<le> r"
  by (auto simp: decimal_def pow10_nonneg split: option.splits list.splits if_splits prod.splits)

lemma lower_char_n: "lower_char c = CHR ''n'' \<Longrightarrow> c = CHR ''n'' \<or> c = CHR ''N''"
  by (simp add: lower_char_def split: if_splits)

lemma ber_class_not_space: "ber_class c \<or> c = CHR ''.'' \<Longrightarrow> \<not> is_space c"
  by (auto simp: ber_class_def is_digit_def is_space_def)

lemma dropWhile_none: "(\<forall>c\<in>set xs. \<not> P c) \<Longrightarrow> dropWhile P xs = xs"
  by (cases xs) auto

lemma strip_no_space: "(\<forall>c\<in>set g. \<not> is_space c) \<Longrightarrow> strip g = g"
  by (simp add: strip_def dropWhile_none)

lemma py_float_unsigned:
  assumes "py_float g = Some v"
    and nominus: "\<forall>t. g \<noteq> CHR ''-'' # t"
    and cls: "\<forall>c\<in>set g. ber_class c \<or> c = CHR ''.''"
  shows "ge_zero v"
proof -
  have "\<forall>c\<in>set g. \<not> is_space c"
    using cls ber_class_not_space by blast
  then have sg: "strip g = g" by (rule strip_no_space)
  obtain neg body where ob: "opt_sign g = (neg, body)" by (cases "opt_sign g")
  have neg: "\<not> neg" and body: "set body \<subseteq> set g"
  proof -
    show "\<not> neg" using ob nominus by (cases g) (auto simp: opt_sign_def split: if_splits)
    show "set body \<subseteq> set g"
    proof (cases g)
      case Nil
      with ob show ?thesis by (simp add: opt_sign_def)
    next
      case (Cons c cs)
      with ob have "body = cs \<or> body = c # cs"
        by (auto simp: opt_sign_def split: if_splits)
      with Cons show ?thesis by auto
    qed
  qed
  have bcls: "\<forall>c\<in>set body. ber_class c \<or> c = CHR ''.''"
    using body cls by blast
  have nonan: "lower body \<noteq> ''nan''"
  proof
    assume "lower body = ''nan''"
    then obtain c cs where "body = c # cs" "lower_char c = CHR ''n''"
      by (cases body) (auto simp: lower_def)
    with bcls lower_char_n [of c] show False
      by (auto simp: ber_class_def is_digit_def)
  qed
  have pf: "py_float g =
      (if lower body = ''inf'' \<or> lower body = ''infinity'' then Some PInf
       else if lower body = ''nan'' then Some NaN
       else map_option fl (decimal body))"
    unfolding py_float_def sg ob using neg by (simp add: Let_def)
  show ?thesis
  proof (cases "lower body = ''inf'' \<or> lower body = ''infinity''")
    case True
    with assms(1) pf show ?thesis by auto
  next
    case False
    with assms(1) pf nonan obtain r where "decimal body = Some r" "v = fl r"
      by auto
    then show ?thesis by (simp add: ge_zero_fl decimal_nonneg)
  qed
qed

lemma update_ber_graph_set:
  "set (ber_history (update_ber_graph v s)) \<subseteq> insert v (set (ber_history s))"
  by (auto simp: update_ber_graph_def Let_def last_n_def dest: in_set_dropD)

lemma scan_ber_nonneg:
  assumes "\<forall>t. re_ber line \<noteq> Some (CHR ''-'' # t)" "\<forall>v\<in>set (ber_history s). ge_zero v"
  shows "\<forall>v\<in>set (ber_history (scan_ber line s)). ge_zero v"
proof (cases "re_ber line")
  case None
  with assms show ?thesis by (simp add: scan_ber_def)
next
  case (Some g)
  note g = re_ber_set [OF Some]
  from assms(1) Some have nominus: "\<forall>t. g \<noteq> CHR ''-'' # t" by auto
  show ?thesis
  proof (cases "py_float g")
    case None
    with Some assms show ?thesis by (simp add: scan_ber_def)
  next
    case (Some v)
    have "ge_zero v" using py_float_unsigned [OF Some nominus] g by blast
    then have "ge_zero (times100 v)" by (rule ge_zero_times100)
    with assms(2) update_ber_graph_set [of "times100 v" s] Some \<open>re_ber line = Some g\<close>
    show ?thesis by (auto simp: scan_ber_def)
  qed
qed

lemma scan_fields [simp]:
  "ber_history (append_log_line l s) = ber_history s"
  "ber_history (scan_title line s) = ber_history s"
  "ber_history (scan_artist line s) = ber_history s"
  "ber_history (scan_album line s) = ber_history s"
  "ber_history (scan_station line s) = ber_history s"
  by (simp_all add: append_log_line_def scan_title_def scan_artist_def scan_album_def
      scan_station_def call_def Let_def split: option.split prod.split)

text \<open>
  C7, as the code has it. The pattern of \<open>re_ber\<close> admits a sign, and nothing checks
  the value read. A line whose BER number, as the pattern matches it, does not begin
  with a minus sign (and a line without a BER number) adds no negative sample: if all
  samples were non-negative before the line, they are after it.
\<close>

theorem ber_nonneg_unless_minus:
  assumes "\<forall>t. re_ber (strip raw) \<noteq> Some (CHR ''-'' # t)"
    and "\<forall>v\<in>set (ber_history s). ge_zero v"
  shows "\<forall>v\<in>set (ber_history (snd (scan_line raw s))). ge_zero v"
  using assms scan_ber_nonneg [of "strip raw" "append_log_line (strip raw) s"]
  by (simp add: scan_line_def Let_def)

lemma re_ber_1em3: "re_ber (strip ''BER: 1e-3'') = Some ''1e-3''"
  by (simp add: strip_def re_ber_def after_lit_def ber_number_def is_space_def is_digit_def
      ber_class_def)

theorem ber_nonneg_unless_minus_witness:
  "re_ber (strip ''BER: 1e-3'') = Some ''1e-3'' \<and> list_all ge_zero (ber_history init) \<and>
   list_all ge_zero (ber_history (snd (scan_line ''BER: 1e-3'' init)))"
  using ber_nonneg_unless_minus [of "''BER: 1e-3''" init]
  by (simp add: list_all_iff init_def re_ber_1em3)

text \<open>The claim as stated fails: the line \<open>BER: -5\<close> stores the sample \<open>-500.0\<close>.\<close>

lemma py_float_m5: "py_float ''-5'' = Some (Fin (- 5))"
  by (simp add: py_float_eval)

lemma re_ber_m5: "re_ber ''BER: -5'' = Some ''-5''"
  by (simp add: re_ber_def after_lit_def ber_number_def is_space_def is_digit_def ber_class_def)

lemma strip_ber_m5: "strip ''BER: -5'' = ''BER: -5''"
  by (simp add: strip_def is_space_def)

theorem ber_negative_sample:
  "ber_history (snd (scan_line ''BER: -5'' init)) = [Fin (- 500)] \<and> \<not> ge_zero (Fin (- 500))"
proof -
  have "ber_history (scan_ber ''BER: -5'' (append_log_line ''BER: -5'' init)) = [Fin (- 500)]"
    by (simp add: scan_ber_def re_ber_m5 py_float_m5 update_ber_graph_def ber_max_points_def
        fl_def init_def append_log_line_def)
  then show ?thesis
    unfolding scan_line_def strip_ber_m5
    by (simp add: Let_def)
qed

subsection \<open>The station point\<close>

lemma station_of_steps [simp]:
  "station_of (append_log_line l s) = station_of s"
  "station_of (scan_ber line s) = station_of s"
  "station_of (scan_title line s) = station_of s"
  "station_of (scan_artist line s) = station_of s"
  "station_of (scan_album line s) = station_of s"
  by (simp_all add: station_of_def append_log_line_def scan_ber_def update_ber_graph_def
      scan_title_def scan_artist_def scan_album_def call_def Let_def split: option.split)

lemma station_of_scan_station:
  "station_of (scan_station line s) =
     (case re_station_loc line of
        None \<Rightarrow> station_of s
      | Some (g1, g2, g3) \<Rightarrow>
          (case (py_float g1, py_float g2, py_float g3) of
             (Some lat, Some lon, Some alt) \<Rightarrow> (Some lat, Some lon, Some alt)
           | _ \<Rightarrow> station_of s))"
  by (simp add: station_of_def scan_station_def split: option.split prod.split)

lemma re_station_loc_Nil: "re_station_loc [] = None"
  by (simp add: re_station_loc_def station_groups_def after_lit_ci_def lower_def)

text \<open>
  C6. After a line the station point is either the three numbers of the line, all
  three read by \<open>float\<close>, or, when the pattern does not match or any of the three
  numbers does not parse, the point it was before: never a mixture.
\<close>

theorem station_all_or_nothing:
  "station_of (snd (scan_line raw s)) =
     (case re_station_loc (strip raw) of
        None \<Rightarrow> station_of s
      | Some (g1, g2, g3) \<Rightarrow>
          (case (py_float g1, py_float g2, py_float g3) of
             (Some lat, Some lon, Some alt) \<Rightarrow> (Some lat, Some lon, Some alt)
           | _ \<Rightarrow> station_of s))"
  by (simp add: scan_line_def Let_def station_of_scan_station re_station_loc_Nil
      split: option.split prod.split)

lemma re_station_ex1:
  "re_station_loc ''Station location: 35.90, -95.77, 300m'' = Some (''35.90'', ''-95.77'', ''300'')"
  by (simp add: re_station_loc_def station_groups_def after_lit_ci_def lower_def lower_char_def
      loc_group_def loc_class_def is_digit_def is_space_def)

lemma re_station_ex2:
  "re_station_loc ''Station location: 1.2.3, 4, 5m'' = Some (''1.2.3'', ''4'', ''5'')"
  by (simp add: re_station_loc_def station_groups_def after_lit_ci_def lower_def lower_char_def
      loc_group_def loc_class_def is_digit_def is_space_def)

lemma pf1: "py_float ''35.90'' = Some (Fin (359 / 10))"
  by (simp add: py_float_eval)
lemma pf2: "py_float ''-95.77'' = Some (Fin (- (9577 / 100)))"
  by (simp add: py_float_eval)
lemma pf3: "py_float ''300'' = Some (Fin 300)"
  by (simp add: py_float_eval)
lemma pf4: "py_float ''1.2.3'' = None"
  by (simp add: py_float_eval)
lemma pf5: "py_float ''4'' = Some (Fin 4)"
  by (simp add: py_float_eval)

theorem station_all_or_nothing_witness:
  "station_of (snd (scan_line ''Station location: 35.90, -95.77, 300m'' init)) =
     (Some (Fin (359 / 10)), Some (Fin (- (9577 / 100))), Some (Fin 300)) \<and>
   station_of (snd (scan_line ''Station location: 1.2.3, 4, 5m'' init)) = (None, None, None)"
  using station_all_or_nothing [of "''Station location: 35.90, -95.77, 300m''" init]
    station_all_or_nothing [of "''Station location: 1.2.3, 4, 5m''" init]
  by (simp add: strip_def is_space_def re_station_ex1 re_station_ex2 pf1 pf2 pf3 pf4 pf5
      station_of_def init_def)


subsection \<open>Validation before the start\<close>

lemma validate_rejects:
  assumes "frequency_refused s \<or> port_refused s"
  shows "\<exists>msg fld. validate_start_inputs s = (False, input_error msg fld s)"
  using assms
  by (auto simp: validate_start_inputs_def frequency_refused_def port_refused_def Let_def
      split: option.splits)

lemma input_error_fields [simp]:
  "procs (input_error t f s) = procs s"
  "proc_play (input_error t f s) = proc_play s"
  "proc_nrsc5 (input_error t f s) = proc_nrsc5 s"
  "proc_rec (input_error t f s) = proc_rec s"
  "radio_running (input_error t f s) = radio_running s"
  "qt (input_error t f s) = qt s @ [MessageBox Warning ''Input Error'' t, SetFocus f]"
  by (simp_all add: input_error_def)

text \<open>
  What the validation refuses starts nothing: \<open>start_stream\<close> creates no process and
  keeps every handle and \<open>radio_running\<close>; from the idle window all it does is show one
  warning box and move the focus to the field at fault.
\<close>

lemma start_refuses:
  assumes "frequency_refused s \<or> port_refused s"
  shows "procs (start_stream w s) = procs s \<and>
         proc_play (start_stream w s) = proc_play s \<and>
         proc_nrsc5 (start_stream w s) = proc_nrsc5 s \<and>
         proc_rec (start_stream w s) = proc_rec s \<and>
         radio_running (start_stream w s) = radio_running s \<and>
         (if radio_running s then start_stream w s = s
          else \<exists>msg fld. start_stream w s = input_error msg fld s \<and>
                 qt (start_stream w s) =
                   qt s @ [MessageBox Warning ''Input Error'' msg, SetFocus fld])"
proof -
  from validate_rejects [OF assms] obtain msg fld
    where v: "validate_start_inputs s = (False, input_error msg fld s)" by blast
  have "start_stream w s = (if radio_running s then s else input_error msg fld s)"
    by (simp add: start_stream_def v)
  then show ?thesis by auto
qed

text \<open>
  A frequency that is not valid is refused, unless it is NaN or the positive infinity:
  the test \<open>freq_val <= 0\<close> is false for both.
\<close>

lemma invalid_frequency_refused:
  assumes "\<not> valid_frequency s"
    and "py_float (strip (freq_edit s)) \<noteq> Some NaN"
    and "py_float (strip (freq_edit s)) \<noteq> Some PInf"
  shows "frequency_refused s"
  using assms
  by (auto simp: valid_frequency_def frequency_refused_def split: option.splits pyfloat.splits)

lemma py_int_1234: "py_int ''1234'' = Some 1234"
  by (simp add: py_int_def opt_sign_def strip_def is_space_def digitpart_def is_digit_def
      digit_val_def nat_of_digits_def)

lemma strip_host: "strip ''192.168.0.162'' = ''192.168.0.162''"
  by (simp add: strip_def is_space_def)

lemma strip_port: "strip ''1234'' = ''1234''"
  by (simp add: strip_def is_space_def)

lemma validate_inf:
  "validate_start_inputs (init\<lparr>freq_edit := ''inf''\<rparr>) = (True, init\<lparr>freq_edit := ''inf''\<rparr>)"
  by (simp add: validate_start_inputs_def init_def py_float_eval py_int_1234 strip_host strip_port
      Let_def)

lemma py_float_nan: "py_float (strip ''nan'') = Some NaN"
  by (simp add: py_float_eval)

lemma validate_nan:
  "validate_start_inputs (init\<lparr>freq_edit := ''nan''\<rparr>) = (True, init\<lparr>freq_edit := ''nan''\<rparr>)"
  by (simp add: validate_start_inputs_def init_def py_float_nan py_int_1234 strip_host strip_port
      Let_def)

lemma nrsc_args_nan:
  "nrsc_args (init\<lparr>freq_edit := ''nan''\<rparr>) =
     [''-H'', ''192.168.0.162:1234'', ''nan'', ''0'', ''-o'', ''-'']"
  by (simp add: nrsc_args_def init_def strip_def is_space_def)

lemma init_idle:
  "\<not> radio_running (init\<lparr>freq_edit := ''nan''\<rparr>)"
  "procs (init\<lparr>freq_edit := ''nan''\<rparr>) = []"
  "procs init = []"
  by (simp_all add: init_def)

lemma start_nan:
  "start_stream obedient (init\<lparr>freq_edit := ''nan''\<rparr>) =
     reset_labels (update_ui_state True (call (SetText RadioBtn ''Stop Radio'')
       ((set_pstate 1 Running
          (spawn ''nrsc5'' [''-H'', ''192.168.0.162:1234'', ''nan'', ''0'', ''-o'', ''-'']
            ((set_pstate 0 Running
               (spawn ''ffplay'' play_args (init\<lparr>freq_edit := ''nan'', proc_play := Some 0\<rparr>)))
             \<lparr>proc_nrsc5 := Some 1\<rparr>)))
        \<lparr>radio_running := True\<rparr>)))"
  by (simp add: start_stream_def validate_nan init_idle nrsc_args_nan wait_for_started_def
      obedient_def Let_def spawn_def)

text \<open>
  C5 fails on the code at the frequency \<open>nan\<close>: it is not a number greater than zero,
  yet the validation passes, no message box is shown, and the player and the receiver
  are started, the receiver with the frequency \<open>nan\<close>.
\<close>

theorem nan_frequency_starts:
  "\<not> valid_frequency (init\<lparr>freq_edit := ''nan''\<rparr>) \<and>
   fst (validate_start_inputs (init\<lparr>freq_edit := ''nan''\<rparr>)) \<and>
   map program (procs (start_stream obedient (init\<lparr>freq_edit := ''nan''\<rparr>))) =
     [''ffplay'', ''nrsc5''] \<and>
   radio_running (start_stream obedient (init\<lparr>freq_edit := ''nan''\<rparr>)) \<and>
   filter is_message_box (qt (start_stream obedient (init\<lparr>freq_edit := ''nan''\<rparr>))) = [] \<and>
   ProcStart 1 ''nrsc5'' [''-H'', ''192.168.0.162:1234'', ''nan'', ''0'', ''-o'', ''-'']
     \<in> set (qt (start_stream obedient (init\<lparr>freq_edit := ''nan''\<rparr>)))"
  unfolding start_nan
  by (simp add: valid_frequency_def py_float_nan validate_nan)
    (simp add: init_def reset_labels_def update_ui_state_def spawn_def call_def
      set_pstate_def set_pst_def play_args_def Let_def)

subsection \<open>Export and import of the presets\<close>

lemma preset_ok_dict: "preset_ok m \<Longrightarrow> is_dict m"
  by (cases m) auto

lemma import_items_ok:
  "list_all preset_ok ps \<Longrightarrow> import_items ps qs = Imported (qs @ ps)"
proof (induction ps arbitrary: qs)
  case Nil
  show ?case by simp
next
  case (Cons m ps)
  from Cons.prems obtain meta where m: "m = JObj meta" by (cases m) auto
  from Cons.prems have "list_all preset_ok ps" by simp
  from Cons.IH [OF this, of "qs @ [m]"] Cons.prems show ?case
    by (auto simp: m Let_def)
qed

text \<open>
  C9. The file holds the list \<open>json.dump\<close> writes and \<open>json.load\<close> returns it. For a
  list of presets as the program builds them, importing what was exported appends the
  same records in the same order: into an empty list it yields an equal list.
\<close>

theorem export_import_presets:
  assumes "list_all preset_ok ps"
  shows "import_presets (export_presets ps) [] = Imported ps \<and>
         import_presets (export_presets ps) qs = Imported (qs @ ps)"
proof -
  have "filter is_dict ps = ps"
    using assms by (induction ps) (auto dest: preset_ok_dict)
  then show ?thesis
    using import_items_ok [OF assms] by (simp add: import_presets_def export_presets_def)
qed

theorem export_import_presets_witness:
  "list_all preset_ok (add_preset ''106.9'' 0 ''Jazz'' (add_preset ''99.1'' 2 [] [])) \<and>
   import_presets (export_presets (add_preset ''106.9'' 0 ''Jazz'' (add_preset ''99.1'' 2 [] []))) [] =
     Imported (add_preset ''106.9'' 0 ''Jazz'' (add_preset ''99.1'' 2 [] []))"
  using export_import_presets
    [of "add_preset ''106.9'' 0 ''Jazz'' (add_preset ''99.1'' 2 [] [])" "[]"]
  by (simp add: add_preset_def strip_def is_space_def get_def Let_def)

text \<open>Every way of adding an item keeps the list within \<open>preset_ok\<close>.\<close>

lemma add_preset_ok:
  "list_all preset_ok ps \<Longrightarrow> list_all preset_ok (add_preset f p n ps)"
  by (simp add: add_preset_def Let_def get_def)

lemma import_items_keeps_ok:
  "list_all preset_ok qs \<Longrightarrow> import_items ms qs = Imported rs \<Longrightarrow> list_all preset_ok rs"
proof (induction ms qs rule: import_items.induct)
  case (2 meta rest presets)
  then show ?case by (auto simp: Let_def split: if_splits)
qed auto

subsection \<open>What the steps leave alone\<close>

text \<open>
  The flags, the handles, the length of the process table and the bytes written to a
  process, across the steps that do not touch them.
\<close>

lemma written_simps [simp]:
  "written r [] = []"
  "written r (c # q) = (if write_to r c then c # written r q else written r q)"
  "written r (q @ q') = written r q @ written r q'"
  by (simp_all add: written_def)

lemma written_empty: "written r q = [] \<longleftrightarrow> (\<forall>d. ProcWrite r d \<notin> set q)"
proof (induction q)
  case Nil
  show ?case by simp
next
  case (Cons c q)
  show ?case
  proof (cases c)
    case (ProcWrite i d)
    with Cons show ?thesis by auto
  qed (use Cons in auto)
qed

lemma written_error [simp]: "written r (qt (on_process_error n e s)) = written r (qt s)"
  by (simp add: on_process_error_def Let_def)

lemma update_ui_state_fields [simp]:
  "radio_running (update_ui_state b s) = radio_running s"
  "recording (update_ui_state b s) = recording s"
  "stopping_radio (update_ui_state b s) = stopping_radio s"
  "proc_nrsc5 (update_ui_state b s) = proc_nrsc5 s"
  "proc_play (update_ui_state b s) = proc_play s"
  "proc_rec (update_ui_state b s) = proc_rec s"
  "procs (update_ui_state b s) = procs s"
  by (simp_all add: update_ui_state_def Let_def)

lemma reset_labels_fields [simp]:
  "radio_running (reset_labels s) = radio_running s"
  "recording (reset_labels s) = recording s"
  "stopping_radio (reset_labels s) = stopping_radio s"
  "proc_nrsc5 (reset_labels s) = proc_nrsc5 s"
  "proc_play (reset_labels s) = proc_play s"
  "proc_rec (reset_labels s) = proc_rec s"
  "procs (reset_labels s) = procs s"
  by (simp_all add: reset_labels_def Let_def)

lemma spawn_fields [simp]:
  "radio_running (spawn p a s) = radio_running s"
  "recording (spawn p a s) = recording s"
  "stopping_radio (spawn p a s) = stopping_radio s"
  "proc_nrsc5 (spawn p a s) = proc_nrsc5 s"
  "proc_play (spawn p a s) = proc_play s"
  "proc_rec (spawn p a s) = proc_rec s"
  "procs (spawn p a s) = procs s @ [\<lparr>program = p, pstate = Starting\<rparr>]"
  "qt (spawn p a s) = qt s @ [ProcStart (length (procs s)) p a]"
  by (simp_all add: spawn_def)

lemma program_set_pst [simp]: "program (set_pst i st ps ! j) = program (ps ! j)"
  by (cases "i < length ps") (simp_all add: set_pst_def nth_list_update list_update_beyond)

lemma wait_consumer_frame [simp]:
  "length (procs (snd (wait_for_finished (on_process_error n) (on_process_finished n) x i s))) =
     length (procs s)"
  "proc_play (snd (wait_for_finished (on_process_error n) (on_process_finished n) x i s)) =
     proc_play s"
  "proc_rec (snd (wait_for_finished (on_process_error n) (on_process_finished n) x i s)) =
     proc_rec s"
  "recording (snd (wait_for_finished (on_process_error n) (on_process_finished n) x i s)) =
     recording s"
  "written r (qt (snd (wait_for_finished (on_process_error n) (on_process_finished n) x i s))) =
     written r (qt s)"
  by (simp_all add: wait_for_finished_def split: finish_reply.split)

lemma kill_consumer_frame [simp]:
  "length (procs (kill_process w (on_process_error n) (on_process_finished n) p s)) =
     length (procs s)"
  "proc_play (kill_process w (on_process_error n) (on_process_finished n) p s) = proc_play s"
  "proc_rec (kill_process w (on_process_error n) (on_process_finished n) p s) = proc_rec s"
  "written r (qt (kill_process w (on_process_error n) (on_process_finished n) p s)) =
     written r (qt s)"
  by (simp_all add: kill_process_def split_beta split: option.split)

lemma kill_consumer_flags [simp]:
  "radio_running (kill_process w (on_process_error n) (on_process_finished n) p s) =
     radio_running s"
  "recording (kill_process w (on_process_error n) (on_process_finished n) p s) = recording s"
  by (simp_all add: kill_process_def wait_for_finished_def
      split: option.split finish_reply.split)

lemma stop_recording_frame [simp]:
  "length (procs (stop_recording w s)) = length (procs s)"
  "proc_play (stop_recording w s) = proc_play s"
  "written r (qt (stop_recording w s)) = written r (qt s)"
  by (simp_all add: stop_recording_def Let_def split_beta split: option.split)

lemma stop_recording_running [simp]: "radio_running (stop_recording w s) = radio_running s"
  by (simp add: stop_recording_def Let_def split_beta wait_for_finished_def
      split: option.split finish_reply.split)

lemma update_ui_state_written [simp]:
  "written r (qt (update_ui_state b s)) = written r (qt s)"
  by (simp add: update_ui_state_def Let_def)

lemma reset_labels_written [simp]: "written r (qt (reset_labels s)) = written r (qt s)"
  by (simp add: reset_labels_def Let_def)

lemma validate_frame [simp]:
  "procs (snd (validate_start_inputs s)) = procs s"
  "proc_play (snd (validate_start_inputs s)) = proc_play s"
  "proc_rec (snd (validate_start_inputs s)) = proc_rec s"
  "written r (qt (snd (validate_start_inputs s))) = written r (qt s)"
  by (simp_all add: validate_start_inputs_def input_error_def Let_def split: option.split)

lemma validate_flags [simp]:
  "radio_running (snd (validate_start_inputs s)) = radio_running s"
  "recording (snd (validate_start_inputs s)) = recording s"
  by (simp_all add: validate_start_inputs_def input_error_def Let_def split: option.split)

lemma wait_started_flags [simp]:
  "radio_running (snd (wait_for_started (on_process_error n) x i s)) = radio_running s"
  "recording (snd (wait_for_started (on_process_error n) x i s)) = recording s"
  by (simp_all add: wait_for_started_def split: start_reply.split)

lemma wait_started_frame [simp]:
  "length (procs (snd (wait_for_started (on_process_error n) x i s))) = length (procs s)"
  "proc_play (snd (wait_for_started (on_process_error n) x i s)) = proc_play s"
  "proc_rec (snd (wait_for_started (on_process_error n) x i s)) = proc_rec s"
  "written r (qt (snd (wait_for_started (on_process_error n) x i s))) = written r (qt s)"
  by (simp_all add: wait_for_started_def split: start_reply.split)

lemma stop_stream_not_running [simp]: "\<not> radio_running (stop_stream w s)"
  by (simp add: stop_stream.simps [of w s] Let_def)

lemma stop_stream_no_player [simp]: "proc_play (stop_stream w s) = None"
  by (simp add: stop_stream.simps [of w s] Let_def)

lemma stop_clears_recording:
  "\<not> recording (stop_stream w s)"
  "\<not> recording t \<Longrightarrow> \<not> recording (on_nrsc5_finished w c st t)"
proof (induction w s and w c st t rule: stop_stream_on_nrsc5_finished.induct)
  case (1 w s)
  have "\<not> recording (kill_process w (on_process_error ''nrsc5'') (on_nrsc5_finished w)
          (proc_nrsc5 (stop_recording w s)) (stop_recording w s))"
    using 1
    by (auto simp: kill_process_def wait_for_finished_def
        split: option.split finish_reply.split)
  then show ?case
    by (simp add: stop_stream.simps [of w s] Let_def)
next
  case (2 w c st s)
  then show ?case
    by (simp add: on_nrsc5_finished.simps [of w c st s] Let_def)
qed

lemma stop_stream_frame:
  "length (procs (stop_stream w s)) = length (procs s) \<and>
   written r (qt (stop_stream w s)) = written r (qt s)"
  "length (procs (on_nrsc5_finished w c st t)) = length (procs t) \<and>
   written r (qt (on_nrsc5_finished w c st t)) = written r (qt t)"
proof (induction w s and w c st t rule: stop_stream_on_nrsc5_finished.induct)
  case (1 w s)
  have "length (procs (kill_process w (on_process_error ''nrsc5'') (on_nrsc5_finished w)
          (proc_nrsc5 (stop_recording w s)) (stop_recording w s))) = length (procs s) \<and>
        written r (qt (kill_process w (on_process_error ''nrsc5'') (on_nrsc5_finished w)
          (proc_nrsc5 (stop_recording w s)) (stop_recording w s))) = written r (qt s)"
    using 1
    by (auto simp: kill_process_def wait_for_finished_def
        split: option.split finish_reply.split)
  then show ?case
    by (simp add: stop_stream.simps [of w s] Let_def)
next
  case (2 w c st s)
  then show ?case
    by (simp add: on_nrsc5_finished.simps [of w c st s] Let_def)
qed

lemma on_nrsc5_finished_cases:
  "on_nrsc5_finished w c st s = on_process_finished ''nrsc5'' c st s \<or>
   on_nrsc5_finished w c st s = stop_stream w (on_process_finished ''nrsc5'' c st s)"
  by (simp add: on_nrsc5_finished.simps [of w c st s] Let_def)

lemma scan_line_frame:
  "radio_running (snd (scan_line raw s)) = radio_running s \<and>
   recording (snd (scan_line raw s)) = recording s \<and>
   procs (snd (scan_line raw s)) = procs s \<and>
   proc_play (snd (scan_line raw s)) = proc_play s \<and>
   proc_rec (snd (scan_line raw s)) = proc_rec s \<and>
   written r (qt (snd (scan_line raw s))) = written r (qt s)"
  by (simp add: scan_line_def scan_station_def scan_album_def scan_artist_def
      scan_title_def scan_ber_def update_ber_graph_def Let_def
      split: option.split prod.split)

lemma scan_lines_frame:
  "radio_running (snd (scan_lines ls (b, s))) = radio_running s \<and>
   recording (snd (scan_lines ls (b, s))) = recording s \<and>
   procs (snd (scan_lines ls (b, s))) = procs s \<and>
   proc_play (snd (scan_lines ls (b, s))) = proc_play s \<and>
   proc_rec (snd (scan_lines ls (b, s))) = proc_rec s \<and>
   written r (qt (snd (scan_lines ls (b, s)))) = written r (qt s)"
proof (induction ls arbitrary: b s)
  case Nil
  show ?case by simp
next
  case (Cons raw ls)
  show ?case
    using Cons [of "b \<or> fst (scan_line raw s)" "snd (scan_line raw s)"] scan_line_frame [of raw s r]
    by (simp add: split_beta)
qed

lemma parse_metadata_output_frame [simp]:
  "radio_running (parse_metadata_output ls now s) = radio_running s"
  "recording (parse_metadata_output ls now s) = recording s"
  "procs (parse_metadata_output ls now s) = procs s"
  "proc_play (parse_metadata_output ls now s) = proc_play s"
  "proc_rec (parse_metadata_output ls now s) = proc_rec s"
  "written r (qt (parse_metadata_output ls now s)) = written r (qt s)"
  using scan_lines_frame [of ls False s r]
  by (simp_all add: parse_metadata_output_def maybe_add_history_entry_def Let_def split_beta)

lemma update_record_duration_frame [simp]:
  "radio_running (update_record_duration now s) = radio_running s"
  "recording (update_record_duration now s) = recording s"
  "procs (update_record_duration now s) = procs s"
  "proc_play (update_record_duration now s) = proc_play s"
  "proc_rec (update_record_duration now s) = proc_rec s"
  "written r (qt (update_record_duration now s)) = written r (qt s)"
  by (simp_all add: update_record_duration_def Let_def split: option.split)

lemma distribute_audio_data_frame [simp]:
  "radio_running (distribute_audio_data d s) = radio_running s"
  "recording (distribute_audio_data d s) = recording s"
  "procs (distribute_audio_data d s) = procs s"
  "proc_play (distribute_audio_data d s) = proc_play s"
  "proc_rec (distribute_audio_data d s) = proc_rec s"
  by (simp_all add: distribute_audio_data_def Let_def split: option.split)

subsection \<open>A session started from the initial window\<close>

text \<open>
  With the settings of the initial window, in a world where the first two processes
  start, a click on the radio button starts the player as process 0 and the receiver as
  process 1.
\<close>

lemma py_float_1069: "py_float ''106.9'' = Some (Fin (1069 / 10))"
  by (simp add: py_float_eval)

lemma py_int_port: "py_int ''1234'' = Some 1234"
  by (simp add: py_int_def opt_sign_def strip_def is_space_def digitpart_def is_digit_def
      digit_val_def nat_of_digits_def)

lemma validate_init:
  "validate_start_inputs (call c (init\<lparr>radio_btn_enabled := False\<rparr>)) =
     (True, call c (init\<lparr>radio_btn_enabled := False\<rparr>))"
  by (simp add: validate_start_inputs_def init_def call_def strip_def is_space_def
      py_float_1069 py_int_port Let_def)

lemma init_fields:
  "\<not> radio_running init" "\<not> recording init" "\<not> stopping_radio init" "procs init = []"
  "radio_btn_enabled init" "qt init = []" "proc_play init = None"
  by (simp_all add: init_def)

lemma session_started:
  assumes "on_start (w 0) = Started" "on_start (w 1) = Started"
  shows "radio_running (fire w ToggleRadio init)"
    and "\<not> recording (fire w ToggleRadio init)"
    and "\<not> stopping_radio (fire w ToggleRadio init)"
    and "proc_play (fire w ToggleRadio init) = Some 0"
    and "proc_nrsc5 (fire w ToggleRadio init) = Some 1"
    and "procs (fire w ToggleRadio init) =
           [\<lparr>program = ''ffplay'', pstate = Running\<rparr>, \<lparr>program = ''nrsc5'', pstate = Running\<rparr>]"
proof -
  have s: "start_stream w (call (SetEnabled RadioBtn False) (init\<lparr>radio_btn_enabled := False\<rparr>)) =
      reset_labels (update_ui_state True (call (SetText RadioBtn ''Stop Radio'')
        ((set_pstate 1 Running
           (spawn ''nrsc5''
             (nrsc_args (call (SetEnabled RadioBtn False) (init\<lparr>radio_btn_enabled := False\<rparr>)))
             ((set_pstate 0 Running
                (spawn ''ffplay'' play_args
                  ((call (SetEnabled RadioBtn False) (init\<lparr>radio_btn_enabled := False\<rparr>))
                   \<lparr>proc_play := Some 0\<rparr>)))
              \<lparr>proc_nrsc5 := Some 1\<rparr>)))
         \<lparr>radio_running := True\<rparr>)))"
    using assms
    by (simp add: start_stream_def validate_init init_fields wait_for_started_def Let_def)
  show "radio_running (fire w ToggleRadio init)"
    and "\<not> recording (fire w ToggleRadio init)"
    and "\<not> stopping_radio (fire w ToggleRadio init)"
    and "proc_play (fire w ToggleRadio init) = Some 0"
    and "proc_nrsc5 (fire w ToggleRadio init) = Some 1"
    and "procs (fire w ToggleRadio init) =
           [\<lparr>program = ''ffplay'', pstate = Running\<rparr>, \<lparr>program = ''nrsc5'', pstate = Running\<rparr>]"
    by (simp_all add: toggle_radio_def init_fields Let_def s set_pst_def)
qed

subsection \<open>Recording only while the radio runs\<close>

lemma on_nrsc5_finished_flags:
  "recording (on_nrsc5_finished w c st s) \<Longrightarrow>
   recording s \<and> radio_running (on_nrsc5_finished w c st s) = radio_running s"
  by (cases "radio_running s \<and> \<not> stopping_radio s")
    (simp_all add: on_nrsc5_finished.simps [of w c st s] Let_def stop_clears_recording)

lemma start_stream_recording: "\<not> recording s \<Longrightarrow> \<not> recording (start_stream w s)"
  by (simp add: start_stream_def Let_def split_beta stop_clears_recording)

lemma start_recording_refuses: "\<not> radio_running s \<Longrightarrow> start_recording w f n s = s"
  by (simp add: start_recording_def)

lemma start_recording_running [simp]:
  "radio_running (start_recording w f n s) = radio_running s"
  by (simp add: start_recording_def Let_def split_beta)

lemma fire_keeps_recording_in_session:
  assumes "recording s \<longrightarrow> radio_running s"
  shows "recording (fire w ev s) \<longrightarrow> radio_running (fire w ev s)"
proof (cases ev)
  case ToggleRadio
  have "\<not> recording s \<Longrightarrow>
      \<not> recording (start_stream w
           (call (SetEnabled RadioBtn False) (s\<lparr>radio_btn_enabled := False\<rparr>)))"
    by (rule start_stream_recording) simp
  then show ?thesis
    using assms
    by (auto simp: ToggleRadio toggle_radio_def Let_def stop_clears_recording)
next
  case (ToggleRecording f n)
  show ?thesis
    using assms
    by (cases "radio_running s")
      (simp_all add: ToggleRecording toggle_recording_def start_recording_refuses)
next
  case (TunePreset freq prog)
  have "\<not> recording (start_stream w
          ((stop_stream w t)\<lparr>stopping_radio := False\<rparr>))" for t
    by (rule start_stream_recording) (simp add: stop_clears_recording)
  then show ?thesis
    using assms
    by (auto simp: TunePreset tune_preset_item_def select_program_by_number_def Let_def
        split: list.splits if_splits)
next
  case CloseEvent
  show ?thesis by (simp add: CloseEvent close_event_def stop_clears_recording)
next
  case (AudioReady d)
  show ?thesis
    using assms
    by (simp add: AudioReady distribute_audio_data_def Let_def split: option.split)
next
  case (DiagnosticReady ls now)
  show ?thesis using assms by (simp add: DiagnosticReady)
next
  case (TimerTick n)
  show ?thesis
    using assms by (simp add: TimerTick update_record_duration_def Let_def split: option.split)
next
  case (ProcessStarts i)
  show ?thesis using assms by (simp add: ProcessStarts)
next
  case (ProcessFailsToStart i)
  show ?thesis using assms by (simp add: ProcessFailsToStart slot_error_def)
next
  case (ProcessEnds i c st)
  show ?thesis
    using assms on_nrsc5_finished_flags [of w c st "set_pstate i NotRunning s"]
      on_nrsc5_finished_flags
        [of w c st "on_process_error (program (procs (set_pstate i NotRunning s) ! i)) Crashed
                      (set_pstate i NotRunning s)"]
    by (auto simp: ProcessEnds slot_finished_def slot_error_def Let_def)
next
  case (ProcessError i e)
  show ?thesis using assms by (simp add: ProcessError slot_error_def)
next
  case (EditFrequency x)
  show ?thesis using assms by (simp add: EditFrequency)
next
  case (EditHost x)
  show ?thesis using assms by (simp add: EditHost)
next
  case (EditPort x)
  show ?thesis using assms by (simp add: EditPort)
next
  case (SelectProgram i)
  show ?thesis using assms by (simp add: SelectProgram)
next
  case ClearLog
  show ?thesis using assms by (simp add: ClearLog)
qed

text \<open>
  C3. In every window a run of events reaches from the initial one, \<open>recording\<close>
  implies \<open>radio_running\<close>; and while the radio is not running, a click on the record
  button changes nothing: \<open>start_recording\<close> refuses.
\<close>

theorem recording_implies_running:
  assumes "reachable w s"
  shows "(recording s \<longrightarrow> radio_running s) \<and>
         (\<not> radio_running s \<longrightarrow> fire w (ToggleRecording file now) s = s)"
proof -
  have inv: "recording s \<longrightarrow> radio_running s"
    using assms
  proof (induction rule: reachable.induct)
    case start
    show ?case by (simp add: init_def)
  next
    case (step s ev)
    then show ?case by (simp add: fire_keeps_recording_in_session)
  qed
  then show ?thesis
    by (auto simp: toggle_recording_def start_recording_refuses)
qed

lemma obedient_starts: "on_start (obedient i) = Started"
  by (simp add: obedient_def)

lemma recording_started:
  "recording (fire obedient (ToggleRecording ''take.mp3'' 0) (fire obedient ToggleRadio init))"
  using session_started(1,2) [of obedient]
  by (simp add: toggle_recording_def start_recording_def Let_def wait_for_started_def
      obedient_starts)

theorem recording_implies_running_witness:
  "reachable obedient
     (fire obedient (ToggleRecording ''take.mp3'' 0) (fire obedient ToggleRadio init)) \<and>
   recording (fire obedient (ToggleRecording ''take.mp3'' 0) (fire obedient ToggleRadio init)) \<and>
   radio_running
     (fire obedient (ToggleRecording ''take.mp3'' 0) (fire obedient ToggleRadio init))"
proof -
  have "reachable obedient
      (fire obedient (ToggleRecording ''take.mp3'' 0) (fire obedient ToggleRadio init))"
    by (intro reachable.step reachable.start)
  then show ?thesis
    using recording_implies_running
      [of obedient "fire obedient (ToggleRecording ''take.mp3'' 0) (fire obedient ToggleRadio init)"
        "''take.mp3''" 0]
      recording_started
    by simp
qed

subsection \<open>The receiver ends on its own\<close>

lemma stop_count_simps [simp]:
  "stop_count [] = 0"
  "stop_count (c # q) = (if c = SetText RadioBtn ''Start Radio'' then 1 else 0) + stop_count q"
  "stop_count (q @ r) = stop_count q + stop_count r"
  by (simp_all add: stop_count_def)

lemma stop_count_error [simp]: "stop_count (qt (on_process_error n e s)) = stop_count (qt s)"
  by (simp add: on_process_error_def Let_def)

lemma stop_count_wait [simp]:
  "stop_count (qt (snd (wait_for_finished (on_process_error n) (on_process_finished n) r i s))) =
     stop_count (qt s)"
  by (simp add: wait_for_finished_def split: finish_reply.split)

lemma stop_count_kill [simp]:
  "stop_count (qt (kill_process w (on_process_error n) (on_process_finished n) p s)) =
     stop_count (qt s)"
  by (simp add: kill_process_def split_beta split: option.split)

lemma stop_count_stop_recording [simp]:
  "stop_count (qt (stop_recording w s)) = stop_count (qt s)"
  by (simp add: stop_recording_def Let_def split_beta split: option.split)

lemma stop_count_update_ui [simp]:
  "stop_count (qt (update_ui_state b s)) = stop_count (qt s)"
  by (simp add: update_ui_state_def Let_def)




subsection \<open>A recorder that does not start\<close>

lemma stop_stream_out_of_reach:
  "r < length (procs s) \<Longrightarrow> out_of_reach r (stop_stream w s)"
  by (simp add: out_of_reach_def stop_stream_frame stop_clears_recording)

lemma stop_stream_handles_ok: "handles_ok s \<Longrightarrow> handles_ok (stop_stream w s)"
  by (simp add: handles_ok_def stop_stream_frame)

lemma start_stream_written [simp]:
  "written r (qt (start_stream w s)) = written r (qt s)"
  by (simp add: start_stream_def Let_def split_beta stop_stream_frame)

lemma start_stream_grows: "length (procs s) \<le> length (procs (start_stream w s))"
  by (simp add: start_stream_def Let_def split_beta stop_stream_frame)

lemma start_stream_out_of_reach:
  "out_of_reach r s \<Longrightarrow> out_of_reach r (start_stream w s)"
  by (auto simp: start_stream_def Let_def split_beta out_of_reach_def stop_stream_frame
      stop_clears_recording)

lemma start_stream_handles_ok:
  assumes "handles_ok s"
  shows "handles_ok (start_stream w s)"
proof -
  have "\<forall>j. proc_play (start_stream w s) = Some j \<longrightarrow> j < length (procs (start_stream w s))"
    using assms
    by (auto simp: start_stream_def Let_def split_beta handles_ok_def stop_stream_frame)
  moreover have "\<forall>r. length (procs (start_stream w s)) \<le> r \<longrightarrow>
      written r (qt (start_stream w s)) = []"
    using assms start_stream_grows [of s w] by (simp add: handles_ok_def)
  ultimately show ?thesis by (simp add: handles_ok_def)
qed

lemma start_recording_written [simp]:
  "written r (qt (start_recording w f n s)) = written r (qt s)"
  by (simp add: start_recording_def Let_def split_beta)

lemma start_recording_out_of_reach:
  "out_of_reach r s \<Longrightarrow> out_of_reach r (start_recording w f n s)"
  by (auto simp: start_recording_def Let_def split_beta out_of_reach_def wait_for_started_def
      split: start_reply.splits)

lemma start_recording_handles_ok:
  "handles_ok s \<Longrightarrow> handles_ok (start_recording w f n s)"
  by (auto simp: start_recording_def Let_def split_beta handles_ok_def)

lemma stop_recording_out_of_reach:
  "out_of_reach r s \<Longrightarrow> out_of_reach r (stop_recording w s)"
  by (simp add: out_of_reach_def)

lemma stop_recording_handles_ok: "handles_ok s \<Longrightarrow> handles_ok (stop_recording w s)"
  by (simp add: handles_ok_def)

lemma distribute_audio_data_written:
  "proc_play s \<noteq> Some r \<Longrightarrow> recording s \<longrightarrow> proc_rec s \<noteq> Some r \<Longrightarrow>
   written r (qt (distribute_audio_data d s)) = written r (qt s)"
  by (auto simp: distribute_audio_data_def Let_def split: option.split)

lemma distribute_audio_data_fresh:
  "length (procs s) \<le> r \<Longrightarrow> written r (qt (distribute_audio_data d s)) = written r (qt s)"
  by (auto simp: distribute_audio_data_def Let_def pst_def split: option.split if_splits)

lemma on_nrsc5_finished_out_of_reach:
  "out_of_reach r s \<Longrightarrow> out_of_reach r (on_nrsc5_finished w c st s)"
  using on_nrsc5_finished_cases [of w c st s]
    stop_stream_out_of_reach [of r "on_process_finished ''nrsc5'' c st s" w]
  by (auto simp: out_of_reach_def)

lemma on_nrsc5_finished_handles_ok:
  "handles_ok s \<Longrightarrow> handles_ok (on_nrsc5_finished w c st s)"
  using on_nrsc5_finished_cases [of w c st s]
    stop_stream_handles_ok [of "on_process_finished ''nrsc5'' c st s" w]
  by (auto simp: handles_ok_def)

lemma fire_written:
  assumes "out_of_reach r s"
  shows "written r (qt (fire w ev s)) = written r (qt s)"
proof (cases ev)
  case (AudioReady d)
  show ?thesis
    using assms by (simp add: AudioReady distribute_audio_data_written out_of_reach_def)
qed (simp_all add: toggle_radio_def toggle_recording_def tune_preset_item_def close_event_def
    select_program_by_number_def slot_error_def slot_finished_def stop_stream_frame Let_def
    split: list.split)

lemma fire_out_of_reach:
  assumes "out_of_reach r s"
  shows "out_of_reach r (fire w ev s)"
proof (cases ev)
  case ToggleRadio
  have a: "out_of_reach r (call (SetEnabled RadioBtn False) (s\<lparr>radio_btn_enabled := False\<rparr>))"
    using assms by (simp add: out_of_reach_def)
  have "out_of_reach r (start_stream w
          (call (SetEnabled RadioBtn False) (s\<lparr>radio_btn_enabled := False\<rparr>)))"
    using a by (rule start_stream_out_of_reach)
  moreover have "out_of_reach r (stop_stream w
          (call (SetEnabled RadioBtn False) (s\<lparr>radio_btn_enabled := False\<rparr>)
           \<lparr>stopping_radio := True\<rparr>))"
    using assms by (intro stop_stream_out_of_reach) (simp add: out_of_reach_def)
  ultimately show ?thesis
    using assms by (simp add: ToggleRadio toggle_radio_def Let_def out_of_reach_def)
next
  case (ToggleRecording f n)
  show ?thesis
    using assms
    by (simp add: ToggleRecording toggle_recording_def start_recording_out_of_reach
        stop_recording_out_of_reach)
next
  case (TunePreset freq prog)
  have "out_of_reach r (start_stream w ((stop_stream w t)\<lparr>stopping_radio := False\<rparr>))"
    if "r < length (procs t)" for t
  proof (rule start_stream_out_of_reach)
    show "out_of_reach r ((stop_stream w t)\<lparr>stopping_radio := False\<rparr>)"
      using stop_stream_out_of_reach [OF that, of w] by (simp add: out_of_reach_def)
  qed
  then show ?thesis
    using assms
    by (auto simp: TunePreset tune_preset_item_def select_program_by_number_def Let_def
        out_of_reach_def split: list.split)
next
  case CloseEvent
  show ?thesis
    using assms
    by (simp add: CloseEvent close_event_def)
      (intro stop_stream_out_of_reach, simp add: out_of_reach_def)
next
  case (ProcessEnds i c st)
  have "out_of_reach r (on_nrsc5_finished w c st t)" if "out_of_reach r t" for t
    using that by (rule on_nrsc5_finished_out_of_reach)
  then show ?thesis
    using assms
    by (auto simp: ProcessEnds slot_finished_def slot_error_def Let_def out_of_reach_def)
qed (use assms in \<open>simp_all add: out_of_reach_def slot_error_def\<close>)

lemma fire_handles_ok:
  assumes "handles_ok s"
  shows "handles_ok (fire w ev s)"
proof (cases ev)
  case ToggleRadio
  have a: "handles_ok (call (SetEnabled RadioBtn False) (s\<lparr>radio_btn_enabled := False\<rparr>))"
    using assms by (simp add: handles_ok_def)
  have "handles_ok (start_stream w
          (call (SetEnabled RadioBtn False) (s\<lparr>radio_btn_enabled := False\<rparr>)))"
    using a by (rule start_stream_handles_ok)
  moreover have "handles_ok (stop_stream w
          (call (SetEnabled RadioBtn False) (s\<lparr>radio_btn_enabled := False\<rparr>)
           \<lparr>stopping_radio := True\<rparr>))"
    using assms by (intro stop_stream_handles_ok) (simp add: handles_ok_def)
  ultimately show ?thesis
    using assms by (simp add: ToggleRadio toggle_radio_def Let_def handles_ok_def)
next
  case (ToggleRecording f n)
  show ?thesis
    using assms
    by (simp add: ToggleRecording toggle_recording_def start_recording_handles_ok
        stop_recording_handles_ok)
next
  case (TunePreset freq prog)
  have "handles_ok (start_stream w ((stop_stream w t)\<lparr>stopping_radio := False\<rparr>))"
    if "handles_ok t" for t
  proof (rule start_stream_handles_ok)
    show "handles_ok ((stop_stream w t)\<lparr>stopping_radio := False\<rparr>)"
      using stop_stream_handles_ok [OF that, of w] by (simp add: handles_ok_def)
  qed
  from this [of "_\<lparr>stopping_radio := True\<rparr>"] show ?thesis
    using assms
    by (auto simp: TunePreset tune_preset_item_def select_program_by_number_def Let_def
        handles_ok_def split: list.split)
next
  case CloseEvent
  show ?thesis
    using assms
    by (simp add: CloseEvent close_event_def)
      (intro stop_stream_handles_ok, simp add: handles_ok_def)
next
  case (AudioReady d)
  show ?thesis
    using assms by (simp add: AudioReady handles_ok_def distribute_audio_data_fresh)
next
  case (ProcessEnds i c st)
  have "handles_ok (on_nrsc5_finished w c st t)" if "handles_ok t" for t
    using that by (rule on_nrsc5_finished_handles_ok)
  then show ?thesis
    using assms
    by (auto simp: ProcessEnds slot_finished_def slot_error_def Let_def handles_ok_def)
qed (use assms in \<open>simp_all add: handles_ok_def slot_error_def\<close>)

lemma run_written:
  "out_of_reach r s \<Longrightarrow> written r (qt (run w evs s)) = written r (qt s)"
proof (induction evs arbitrary: s)
  case Nil
  show ?case by simp
next
  case (Cons ev evs)
  have "written r (qt (run w evs (fire w ev s))) = written r (qt (fire w ev s))"
    using Cons.prems by (intro Cons.IH fire_out_of_reach)
  then show ?case
    using Cons.prems by (simp add: fire_written)
qed

lemma reachable_handles_ok: "reachable w s \<Longrightarrow> handles_ok s"
proof (induction rule: reachable.induct)
  case start
  show ?case by (simp add: handles_ok_def init_def)
next
  case (step s ev)
  then show ?case by (simp add: fire_handles_ok)
qed

text \<open>
  C10. In a window reached from the initial one, with the radio running and no recording
  going on, \<open>start_recording\<close> is called and the recorder does not start within the wait.
  Then \<open>recording\<close> stays \<open>False\<close>, the start time, the duration text and the status text
  are unchanged, the only calls into Qt are the start of the process and one warning box
  (so the timer is not started and the record button is not touched), and whatever
  events follow, no bytes are ever written to that recorder.
\<close>

theorem failed_recorder_start:
  assumes "reachable w s" and "radio_running s" and "\<not> recording s"
    and "on_start (w (length (procs s))) \<noteq> Started"
  shows "\<not> recording (start_recording w file now s) \<and>
         record_start_time (start_recording w file now s) = record_start_time s \<and>
         record_duration_text (start_recording w file now s) = record_duration_text s \<and>
         status_text (start_recording w file now s) = status_text s \<and>
         proc_rec (start_recording w file now s) = Some (length (procs s)) \<and>
         qt (start_recording w file now s) =
           qt s @ [ProcStart (length (procs s)) ''ffmpeg'' (ffmpeg_args file),
                   MessageBox Warning ''Error'' ''Could not start ffmpeg recorder.''] \<and>
         (\<forall>evs d. ProcWrite (length (procs s)) d \<notin>
                    set (qt (run w evs (start_recording w file now s))))"
proof -
  let ?r = "length (procs s)"
  let ?t = "start_recording w file now s"
  have ok: "handles_ok s" using assms(1) by (rule reachable_handles_ok)
  then have play: "proc_play s \<noteq> Some ?r" and fresh: "written ?r (qt s) = []"
    by (auto simp: handles_ok_def)
  have t: "\<not> recording ?t" "record_start_time ?t = record_start_time s"
    "record_duration_text ?t = record_duration_text s" "status_text ?t = status_text s"
    "proc_rec ?t = Some ?r" "proc_play ?t = proc_play s" "length (procs ?t) = Suc ?r"
    "qt ?t = qt s @ [ProcStart ?r ''ffmpeg'' (ffmpeg_args file),
                     MessageBox Warning ''Error'' ''Could not start ffmpeg recorder.'']"
    using assms(2-4)
    by (cases "on_start (w ?r)";
        simp add: start_recording_def Let_def wait_for_started_def on_process_error_def
          append_log_line_def spawn_def call_def set_pstate_def)+
  have "out_of_reach ?r ?t"
    using t play by (simp add: out_of_reach_def)
  then have "written ?r (qt (run w evs ?t)) = written ?r (qt ?t)" for evs
    by (rule run_written)
  then have "written ?r (qt (run w evs ?t)) = []" for evs
    using fresh by (simp add: t)
  then have "\<forall>evs d. ProcWrite ?r d \<notin> set (qt (run w evs ?t))"
    by (simp add: written_empty)
  with t show ?thesis by simp
qed

lemma late_recorder_starts:
  "on_start (late_recorder 0) = Started" "on_start (late_recorder (Suc 0)) = Started"
  "on_start (late_recorder 2) = StartPending"
  by (simp_all add: late_recorder_def obedient_def)

theorem failed_recorder_start_witness:
  "reachable late_recorder (fire late_recorder ToggleRadio init) \<and>
   radio_running (fire late_recorder ToggleRadio init) \<and>
   \<not> recording (fire late_recorder ToggleRadio init) \<and>
   on_start (late_recorder (length (procs (fire late_recorder ToggleRadio init)))) = StartPending \<and>
   \<not> recording (start_recording late_recorder ''take.mp3'' 0
                  (fire late_recorder ToggleRadio init)) \<and>
   ProcWrite 2 ''abcd'' \<notin>
     set (qt (run late_recorder [ProcessStarts 2, AudioReady ''abcd'']
               (start_recording late_recorder ''take.mp3'' 0
                  (fire late_recorder ToggleRadio init))))"
proof -
  have r: "reachable late_recorder (fire late_recorder ToggleRadio init)"
    by (intro reachable.step reachable.start)
  have n: "length (procs (fire late_recorder ToggleRadio init)) = 2"
    using session_started(6) [of late_recorder] by (simp add: late_recorder_starts)
  have h: "radio_running (fire late_recorder ToggleRadio init)"
    "\<not> recording (fire late_recorder ToggleRadio init)"
    using session_started(1,2) [of late_recorder] by (simp_all add: late_recorder_starts)
  have p: "on_start (late_recorder (length (procs (fire late_recorder ToggleRadio init)))) =
      StartPending"
    by (simp only: n late_recorder_starts)
  from failed_recorder_start
    [of late_recorder "fire late_recorder ToggleRadio init" "''take.mp3''" 0]
  have "\<not> recording (start_recording late_recorder ''take.mp3'' 0
                  (fire late_recorder ToggleRadio init)) \<and>
    (\<forall>evs d. ProcWrite 2 d \<notin>
       set (qt (run late_recorder evs
                 (start_recording late_recorder ''take.mp3'' 0
                    (fire late_recorder ToggleRadio init)))))"
    using r h p by (simp only: n) simp
  then show ?thesis
    using r h p by blast
qed

end
